theory Spec2Isabelle
  imports Main "HOL-Library.Sublist"
begin

section \<open>Python string operations used by the dialogue engine\<close>

text \<open>
  A Python \<^verbatim>\<open>str\<close> is modelled as a \<^typ>\<open>string\<close> whose characters are the code
  points below 256. On that range \<^verbatim>\<open>\d\<close> matches exactly \<^verbatim>\<open>0\<close>..\<^verbatim>\<open>9\<close>,
  \<^verbatim>\<open>str.strip()\<close> removes the code points 9..13, 28..32, 133 and 160, and
  \<^verbatim>\<open>str.lower()\<close> adds 32 to \<^verbatim>\<open>A\<close>..\<^verbatim>\<open>Z\<close> and to 192..222 except 215.
  Code points from 256 on are outside the model.
\<close>

definition is_digit :: "char \<Rightarrow> bool" where
  "is_digit c = (48 \<le> (of_char c :: nat) \<and> (of_char c :: nat) \<le> 57)"

definition is_space :: "char \<Rightarrow> bool" where
  "is_space c = (let n = (of_char c :: nat) in
     (9 \<le> n \<and> n \<le> 13) \<or> (28 \<le> n \<and> n \<le> 32) \<or> n = 133 \<or> n = 160)"

definition is_upper :: "char \<Rightarrow> bool" where
  "is_upper c = (let n = (of_char c :: nat) in
     (65 \<le> n \<and> n \<le> 90) \<or> (192 \<le> n \<and> n \<le> 222 \<and> n \<noteq> 215))"

text \<open>Adding 32 to an upper-case code point sets its bit 5, which is clear there.\<close>

definition char_lower :: "char \<Rightarrow> char" where
  "char_lower c =
     (if is_upper c
      then (case c of Char b0 b1 b2 b3 b4 b5 b6 b7 \<Rightarrow> Char b0 b1 b2 b3 b4 True b6 b7)
      else c)"

text \<open>\<^verbatim>\<open>s.lower()\<close>\<close>

definition str_lower :: "string \<Rightarrow> string" where
  "str_lower s = map char_lower s"

text \<open>\<^verbatim>\<open>s.strip()\<close>\<close>

definition str_strip :: "string \<Rightarrow> string" where
  "str_strip s = rev (dropWhile is_space (rev (dropWhile is_space s)))"

text \<open>\<^verbatim>\<open>k in s\<close> for two strings: \<open>k\<close> occurs in \<open>s\<close> as a contiguous block.\<close>

fun str_contains :: "string \<Rightarrow> string \<Rightarrow> bool" where
  "str_contains k [] = (k = [])"
| "str_contains k (c # cs) = (prefix k (c # cs) \<or> str_contains k cs)"

text \<open>\<^verbatim>\<open>any(keyword in message for keyword in keywords)\<close>\<close>

definition any_keyword_in :: "string list \<Rightarrow> string \<Rightarrow> bool" where
  "any_keyword_in keywords msg = list_ex (\<lambda>keyword. str_contains keyword msg) keywords"

text \<open>\<^verbatim>\<open>re.findall(r'\d+', s)\<close>: the maximal runs of digits, left to right.\<close>

function re_findall_digits :: "string \<Rightarrow> string list" where
  "re_findall_digits s =
     (case dropWhile (\<lambda>c. \<not> is_digit c) s of
        [] \<Rightarrow> []
      | d # t \<Rightarrow> takeWhile is_digit (d # t) # re_findall_digits (dropWhile is_digit t))"
  by pat_completeness auto
termination
proof (relation "measure length")
  show "wf (measure length)" by simp
next
  fix s :: string and d t
  assume "dropWhile (\<lambda>c. \<not> is_digit c) s = d # t"
  then have "length t < length s"
    by (metis length_dropWhile_le length_Cons less_eq_Suc_le)
  moreover have "length (dropWhile is_digit t) \<le> length t"
    by (rule length_dropWhile_le)
  ultimately show "(dropWhile is_digit t, s) \<in> measure length" by simp
qed

declare re_findall_digits.simps [simp del]

text \<open>
  \<^verbatim>\<open>int(ds)\<close> on a string of decimal digits; Python integers are unbounded. The
  interpreter's cap on the length of the digit string (4300 digits by default from
  Python 3.11 on, beyond any message the channel delivers) is not modelled.
\<close>

definition digit_value :: "char \<Rightarrow> int" where
  "digit_value c = int (of_char c) - 48"

definition int_of_str :: "string \<Rightarrow> int" where
  "int_of_str ds = foldl (\<lambda>a c. 10 * a + digit_value c) 0 ds"

text \<open>
  \<^verbatim>\<open>s.replace(old, new)\<close>: every non-overlapping occurrence of \<open>old\<close>, found left to
  right, is replaced; an empty \<open>old\<close> matches before every character and at the end.
\<close>

function str_replace :: "string \<Rightarrow> string \<Rightarrow> string \<Rightarrow> string" where
  "str_replace old new s =
     (if old = [] then new @ concat (map (\<lambda>c. c # new) s)
      else if s = [] then []
      else if prefix old s then new @ str_replace old new (drop (length old) s)
      else hd s # str_replace old new (tl s))"
  by pat_completeness auto
termination
  by (relation "measure (\<lambda>(old, new, s). length s)") auto

declare str_replace.simps [simp del]

section \<open>Data model\<close>

text \<open>
  The values the engine stores in \<^verbatim>\<open>conversation_data\<close>: the canonical answer strings
  and the income as an integer.
\<close>

datatype scalar = SStr string | SInt int

text \<open>The per-sender dictionary built by \<^verbatim>\<open>get_user_state\<close>.\<close>

record conv_state =
  current_state :: string
  conversation_data :: "string \<rightharpoonup> scalar"
  message_count :: int
  retry_count :: int
  outcome :: "string option"

text \<open>
  The flow document is the JSON object loaded at start-up. Every key the engine reads
  with \<^verbatim>\<open>.get(key, default)\<close> is an optional field; \<open>None\<close> is the absent key.
\<close>

record branch =
  br_message :: "string option"
  br_message_template :: "string option"
  br_next_state :: "string option"

record rules =
  r_employment_type :: "string list option"
  r_monthly_income_minimum :: "int option"
  r_residency_status :: "string list option"

record state_def =
  st_message_template :: "string option"
  st_message :: "string option"
  st_next_state :: "string option"
  positive_keywords :: "string list option"
  negative_keywords :: "string list option"
  on_positive :: "branch option"
  on_negative :: "branch option"
  on_unclear :: "branch option"
  valid_responses :: "(string \<rightharpoonup> string list) option"
  store_as :: "string option"
  on_valid :: "branch option"
  on_invalid :: "branch option"
  minimum_income :: "int option"
  on_below_minimum :: "branch option"
  qualification_rules :: "rules option"
  on_qualified :: "branch option"
  on_not_qualified :: "branch option"

record error_handling_cfg =
  max_retries :: "int option"
  technical_error_message :: "string option"

record flow =
  states :: "string \<rightharpoonup> state_def"
  calendly_link :: "string option"
  error_handling :: "error_handling_cfg option"
  product_hook :: "string option"

text \<open>\<^verbatim>\<open>GeminiAdapter\<close>: the flag and whether a model object was constructed.\<close>

record gemini_adapter =
  enabled :: bool
  model_loaded :: bool

definition is_enabled :: "gemini_adapter \<Rightarrow> bool" where
  "is_enabled g = (enabled g \<and> model_loaded g)"

section \<open>Conversation store\<close>

text \<open>
  The store is one JSON file holding a dictionary from phone number to state. For the
  engine the file is taken in its parsed form: it either parses to such a dictionary or
  it does not (missing, corrupt), and then \<^verbatim>\<open>_read_all\<close> returns the empty dictionary.
  The file as text, with \<^verbatim>\<open>json.dump\<close> and \<^verbatim>\<open>json.load\<close>, is modelled further
  below and related to this parsed form. A file that parses to JSON other than an object
  makes \<^verbatim>\<open>get\<close> and \<^verbatim>\<open>set\<close> raise; the store never writes such a file and the
  engine is modelled on the others.

  \<^verbatim>\<open>_write_all\<close> catches every exception of the write and only logs it. What a write
  does is decided by the environment: it succeeds (\<open>Written\<close>), \<^verbatim>\<open>open\<close> fails and the
  file stays as it was (\<open>Refused\<close>), or the write fails after \<^verbatim>\<open>open\<close> has truncated
  the file, which then no longer parses (\<open>Torn\<close>). The store carries the outcomes of
  the coming writes in order; once the list is used up, writes succeed.
\<close>

datatype store_file = Unreadable | Contents "string \<rightharpoonup> conv_state"

datatype write_outcome = Written | Refused | Torn

record conversation_store =
  content :: store_file
  next_writes :: "write_outcome list"

definition next_outcome :: "write_outcome list \<Rightarrow> write_outcome" where
  "next_outcome ws = (case ws of [] \<Rightarrow> Written | w # rest \<Rightarrow> w)"

definition read_all :: "conversation_store \<Rightarrow> (string \<rightharpoonup> conv_state)" where
  "read_all cs = (case content cs of Unreadable \<Rightarrow> Map.empty | Contents d \<Rightarrow> d)"

definition write_all ::
  "conversation_store \<Rightarrow> (string \<rightharpoonup> conv_state) \<Rightarrow> conversation_store" where
  "write_all cs d =
     (case next_outcome (next_writes cs) of
        Written \<Rightarrow> cs\<lparr>content := Contents d, next_writes := tl (next_writes cs)\<rparr>
      | Refused \<Rightarrow> cs\<lparr>next_writes := tl (next_writes cs)\<rparr>
      | Torn \<Rightarrow> cs\<lparr>content := Unreadable, next_writes := tl (next_writes cs)\<rparr>)"

definition store_get :: "conversation_store \<Rightarrow> string \<Rightarrow> conv_state option" where
  "store_get cs phone_number = read_all cs phone_number"

definition store_set ::
  "conversation_store \<Rightarrow> string \<Rightarrow> conv_state \<Rightarrow> conversation_store" where
  "store_set cs phone_number state = write_all cs ((read_all cs)(phone_number \<mapsto> state))"

definition store_delete :: "conversation_store \<Rightarrow> string \<Rightarrow> conversation_store" where
  "store_delete cs phone_number =
     (case read_all cs phone_number of
        None \<Rightarrow> cs
      | Some _ \<Rightarrow> write_all cs ((read_all cs)(phone_number := None)))"

section \<open>The store file as text\<close>

text \<open>
  What \<^verbatim>\<open>_write_all\<close> puts into the file is the text
  \<^verbatim>\<open>json.dumps(data, ensure_ascii=False, indent=2)\<close>, and what \<^verbatim>\<open>_read_all\<close> gets back is
  \<^verbatim>\<open>json.loads\<close> of that text. Both are modelled here on the JSON values the engine
  writes: objects (Python dictionaries, with their insertion order), strings, integers,
  booleans and \<^verbatim>\<open>null\<close>. Arrays and non-integer numbers do not occur in the store
  and are outside the model, as are code points from 256 on.
\<close>

datatype json = JNull | JBool bool | JInt int | JStr string | JObj members
  and members = MNil | MCons string json members

text \<open>Dictionary operations: \<^verbatim>\<open>d.get(k)\<close>, \<^verbatim>\<open>d[k] = v\<close>, the keys, appending.\<close>

primrec m_lookup :: "members \<Rightarrow> string \<Rightarrow> json option" where
  "m_lookup MNil k = None"
| "m_lookup (MCons k' v rest) k = (if k' = k then Some v else m_lookup rest k)"

primrec m_update :: "string \<Rightarrow> json \<Rightarrow> members \<Rightarrow> members" where
  "m_update k v MNil = MCons k v MNil"
| "m_update k v (MCons k' v' rest) =
     (if k' = k then MCons k v rest else MCons k' v' (m_update k v rest))"

primrec m_keys :: "members \<Rightarrow> string list" where
  "m_keys MNil = []"
| "m_keys (MCons k v rest) = k # m_keys rest"

primrec m_app :: "members \<Rightarrow> members \<Rightarrow> members" where
  "m_app MNil m = m"
| "m_app (MCons k v rest) m = MCons k v (m_app rest m)"

text \<open>A Python dictionary has no key twice.\<close>

primrec wf_json :: "json \<Rightarrow> bool" and wf_members :: "members \<Rightarrow> bool" where
  "wf_json JNull = True"
| "wf_json (JBool b) = True"
| "wf_json (JInt i) = True"
| "wf_json (JStr s) = True"
| "wf_json (JObj m) = wf_members m"
| "wf_members MNil = True"
| "wf_members (MCons k v rest) = (k \<notin> set (m_keys rest) \<and> wf_json v \<and> wf_members rest)"

text \<open>
  The encoder. A string is quoted with the escapes of \<^verbatim>\<open>ensure_ascii=False\<close>: the
  quote, the backslash and the control characters below 32. With \<^verbatim>\<open>indent=2\<close> each
  member of a non-empty object starts on a line of its own, indented two spaces per
  level, members are separated by a comma and key and value by a colon and a space.
\<close>

definition hex_digit :: "nat \<Rightarrow> char" where
  "hex_digit n = ''0123456789abcdef'' ! n"

definition escape_char :: "char \<Rightarrow> string" where
  "escape_char c =
     (if c = CHR 0x22 then [CHR 0x5C, CHR 0x22]
      else if c = CHR 0x5C then [CHR 0x5C, CHR 0x5C]
      else if c = CHR 0x0A then [CHR 0x5C, CHR ''n'']
      else if c = CHR 0x0D then [CHR 0x5C, CHR ''r'']
      else if c = CHR 0x09 then [CHR 0x5C, CHR ''t'']
      else if c = CHR 0x08 then [CHR 0x5C, CHR ''b'']
      else if c = CHR 0x0C then [CHR 0x5C, CHR ''f'']
      else if (of_char c :: nat) < 32 then
        [CHR 0x5C, CHR ''u'', CHR ''0'', CHR ''0'',
         hex_digit ((of_char c :: nat) div 16), hex_digit ((of_char c :: nat) mod 16)]
      else [c])"

definition quote :: "string \<Rightarrow> string" where
  "quote s = CHR 0x22 # concat (map escape_char s) @ [CHR 0x22]"

fun show_nat :: "nat \<Rightarrow> string" where
  "show_nat n = (if n < 10 then [''0123456789'' ! n]
                 else show_nat (n div 10) @ [''0123456789'' ! (n mod 10)])"

declare show_nat.simps [simp del]

definition show_int :: "int \<Rightarrow> string" where
  "show_int i = (if i < 0 then CHR ''-'' # show_nat (nat (- i)) else show_nat (nat i))"

definition newline_indent :: "nat \<Rightarrow> string" where
  "newline_indent n = CHR 0x0A # replicate (2 * n) (CHR '' '')"

primrec dumps :: "json \<Rightarrow> nat \<Rightarrow> string" and dumps_members :: "members \<Rightarrow> nat \<Rightarrow> string" where
  "dumps JNull n = ''null''"
| "dumps (JBool b) n = (if b then ''true'' else ''false'')"
| "dumps (JInt i) n = show_int i"
| "dumps (JStr s) n = quote s"
| "dumps (JObj m) n =
     (if m = MNil then ''{}''
      else ''{'' @ newline_indent (Suc n) @ dumps_members m (Suc n) @ newline_indent n @ ''}'')"
| "dumps_members MNil n = []"
| "dumps_members (MCons k v rest) n =
     quote k @ '': '' @ dumps v n
       @ (if rest = MNil then [] else '','' @ newline_indent n @ dumps_members rest n)"

definition json_dumps :: "json \<Rightarrow> string" where
  "json_dumps v = dumps v 0"

text \<open>
  The decoder, as \<^verbatim>\<open>json.loads\<close> scans: white space is skipped around the tokens,
  strings are read in strict mode (a raw control character is an error), an integer is
  \<open>-?(0|[1-9][0-9]*)\<close>, and the members of an object are put into a dictionary one
  after the other, so that a repeated key keeps its place and takes the last value. The
  first argument bounds the nesting still to be read.
\<close>

definition is_json_ws :: "char \<Rightarrow> bool" where
  "is_json_ws c = (c = CHR '' '' \<or> c = CHR 0x09 \<or> c = CHR 0x0A \<or> c = CHR 0x0D)"

definition skip_ws :: "string \<Rightarrow> string" where
  "skip_ws s = dropWhile is_json_ws s"

definition hex_value :: "char \<Rightarrow> nat option" where
  "hex_value c =
     (let n = (of_char c :: nat) in
      if 48 \<le> n \<and> n \<le> 57 then Some (n - 48)
      else if 97 \<le> n \<and> n \<le> 102 then Some (n - 87)
      else if 65 \<le> n \<and> n \<le> 70 then Some (n - 55)
      else None)"

definition decode_hex4 :: "string \<Rightarrow> char option" where
  "decode_hex4 s =
     (case map hex_value s of
        [Some a, Some b, Some c, Some d] \<Rightarrow>
          (if a = 0 \<and> b = 0 then Some (char_of (16 * c + d)) else None)
      | _ \<Rightarrow> None)"

definition unescape :: "char \<Rightarrow> char option" where
  "unescape e =
     (if e = CHR 0x22 then Some (CHR 0x22)
      else if e = CHR 0x5C then Some (CHR 0x5C)
      else if e = CHR ''/'' then Some (CHR ''/'')
      else if e = CHR ''b'' then Some (CHR 0x08)
      else if e = CHR ''f'' then Some (CHR 0x0C)
      else if e = CHR ''n'' then Some (CHR 0x0A)
      else if e = CHR ''r'' then Some (CHR 0x0D)
      else if e = CHR ''t'' then Some (CHR 0x09)
      else None)"

fun scan_string :: "string \<Rightarrow> (string \<times> string) option" where
  "scan_string [] = None"
| "scan_string (c # cs) =
     (if c = CHR 0x22 then Some ([], cs)
      else if c = CHR 0x5C then
        (case cs of
           [] \<Rightarrow> None
         | e # cs' \<Rightarrow>
             if e = CHR ''u'' then
               (case decode_hex4 (take 4 cs') of
                  None \<Rightarrow> None
                | Some ch \<Rightarrow> map_option (\<lambda>(t, r). (ch # t, r)) (scan_string (drop 4 cs')))
             else
               (case unescape e of
                  None \<Rightarrow> None
                | Some ch \<Rightarrow> map_option (\<lambda>(t, r). (ch # t, r)) (scan_string cs')))
      else if (of_char c :: nat) < 32 then None
      else map_option (\<lambda>(t, r). (c # t, r)) (scan_string cs))"

definition scan_nat :: "string \<Rightarrow> (int \<times> string) option" where
  "scan_nat s =
     (case s of
        [] \<Rightarrow> None
      | c # cs \<Rightarrow>
          if c = CHR ''0'' then Some (0, cs)
          else if is_digit c then Some (int_of_str (takeWhile is_digit s), dropWhile is_digit s)
          else None)"

definition scan_int :: "string \<Rightarrow> (int \<times> string) option" where
  "scan_int s =
     (case s of
        [] \<Rightarrow> None
      | c # cs \<Rightarrow>
          if c = CHR ''-'' then map_option (\<lambda>(i, r). (- i, r)) (scan_nat cs)
          else scan_nat s)"

fun parse_value :: "nat \<Rightarrow> string \<Rightarrow> (json \<times> string) option"
  and parse_members :: "nat \<Rightarrow> members \<Rightarrow> string \<Rightarrow> (members \<times> string) option" where
  "parse_value 0 s = None"
| "parse_value (Suc n) s =
     (case s of
        [] \<Rightarrow> None
      | c # cs \<Rightarrow>
          if c = CHR 0x22 then map_option (\<lambda>(t, r). (JStr t, r)) (scan_string cs)
          else if c = CHR ''{'' then
            (case skip_ws cs of
               [] \<Rightarrow> None
             | d # r \<Rightarrow>
                 if d = CHR ''}'' then Some (JObj MNil, r)
                 else if d = CHR 0x22 then
                   map_option (\<lambda>(m, r'). (JObj m, r')) (parse_members n MNil r)
                 else None)
          else if prefix ''null'' s then Some (JNull, drop 4 s)
          else if prefix ''true'' s then Some (JBool True, drop 4 s)
          else if prefix ''false'' s then Some (JBool False, drop 5 s)
          else map_option (\<lambda>(i, r). (JInt i, r)) (scan_int s))"
| "parse_members 0 acc s = None"
| "parse_members (Suc n) acc s =
     (case scan_string s of
        None \<Rightarrow> None
      | Some (k, r1) \<Rightarrow>
          (case skip_ws r1 of
             [] \<Rightarrow> None
           | c # r2 \<Rightarrow>
               if c = CHR '':'' then
                 (case parse_value n (skip_ws r2) of
                    None \<Rightarrow> None
                  | Some (v, r3) \<Rightarrow>
                      (case skip_ws r3 of
                         [] \<Rightarrow> None
                       | d # r4 \<Rightarrow>
                           if d = CHR ''}'' then Some (m_update k v acc, r4)
                           else if d = CHR '','' then
                             (case skip_ws r4 of
                                [] \<Rightarrow> None
                              | e # r5 \<Rightarrow>
                                  if e = CHR 0x22 then parse_members n (m_update k v acc) r5
                                  else None)
                           else None))
               else None))"

declare parse_value.simps [simp del] parse_members.simps [simp del]

definition json_loads :: "string \<Rightarrow> json option" where
  "json_loads s =
     (case parse_value (Suc (length s)) (skip_ws s) of
        None \<Rightarrow> None
      | Some (v, r) \<Rightarrow> if skip_ws r = [] then Some v else None)"

text \<open>The nesting a value needs to be read, and the text closing an object.\<close>

primrec fuel :: "json \<Rightarrow> nat" and fuel_members :: "members \<Rightarrow> nat" where
  "fuel JNull = 1"
| "fuel (JBool b) = 1"
| "fuel (JInt i) = 1"
| "fuel (JStr s) = 1"
| "fuel (JObj m) = Suc (fuel_members m)"
| "fuel_members MNil = 0"
| "fuel_members (MCons k v rest) = Suc (max (fuel v) (fuel_members rest))"

definition closing :: "nat \<Rightarrow> string \<Rightarrow> string" where
  "closing n rest = newline_indent n @ CHR ''}'' # rest"

section \<open>Dialogue manager\<close>

text \<open>
  The \<^verbatim>\<open>DialogueManager\<close> object: the loaded flow, the adapter, the in-memory
  dictionary \<^verbatim>\<open>user_states\<close> and the store. Methods that mutate \<^verbatim>\<open>self\<close> return
  the updated object.
\<close>

record dialogue_manager =
  dialogue_data :: flow
  llm :: gemini_adapter
  user_states :: "string \<rightharpoonup> conv_state"
  store :: conversation_store

datatype error = NameError string | TypeError | AttributeError

type_synonym reply = "string \<times> bool"

definition initial_user_state :: conv_state where
  "initial_user_state =
     \<lparr>current_state = ''INITIAL'', conversation_data = Map.empty, message_count = 0,
      retry_count = 0, outcome = None\<rparr>"

definition get_user_state :: "dialogue_manager \<Rightarrow> string \<Rightarrow> conv_state \<times> dialogue_manager" where
  "get_user_state dm phone_number =
     (case user_states dm phone_number of
        Some u \<Rightarrow> (u, dm)
      | None \<Rightarrow>
          (case store_get (store dm) phone_number of
             Some persisted \<Rightarrow>
               (persisted, dm\<lparr>user_states := (user_states dm)(phone_number \<mapsto> persisted)\<rparr>)
           | None \<Rightarrow>
               (initial_user_state,
                dm\<lparr>user_states := (user_states dm)(phone_number \<mapsto> initial_user_state)\<rparr>)))"

text \<open>
  \<^verbatim>\<open>update_user_state\<close> mutates the dictionary held in \<^verbatim>\<open>user_states\<close> and then
  writes it to the store. \<open>data = None\<close> is the default argument.
\<close>

definition update_user_state ::
  "dialogue_manager \<Rightarrow> string \<Rightarrow> string \<Rightarrow> (string \<rightharpoonup> scalar) option \<Rightarrow> dialogue_manager" where
  "update_user_state dm phone_number state data =
     (case get_user_state dm phone_number of
        (user_state, dm1) \<Rightarrow>
          (let user_state' = user_state
                 \<lparr>current_state := state,
                  message_count := message_count user_state + 1,
                  conversation_data :=
                    (case data of
                       None \<Rightarrow> conversation_data user_state
                     | Some d \<Rightarrow> conversation_data user_state ++ d)\<rparr>
           in dm1\<lparr>user_states := (user_states dm1)(phone_number \<mapsto> user_state'),
                  store := store_set (store dm1) phone_number user_state'\<rparr>))"

text \<open>Reading the flow document with the defaults of the source.\<close>

definition empty_state :: state_def where
  "empty_state =
     \<lparr>st_message_template = None, st_message = None, st_next_state = None,
      positive_keywords = None, negative_keywords = None, on_positive = None,
      on_negative = None, on_unclear = None, valid_responses = None, store_as = None,
      on_valid = None, on_invalid = None, minimum_income = None, on_below_minimum = None,
      qualification_rules = None, on_qualified = None, on_not_qualified = None\<rparr>"

definition states_get :: "dialogue_manager \<Rightarrow> string \<Rightarrow> state_def" where
  "states_get dm state_id =
     (case states (dialogue_data dm) state_id of None \<Rightarrow> empty_state | Some st \<Rightarrow> st)"

definition get_or :: "'a option \<Rightarrow> 'a \<Rightarrow> 'a" where
  "get_or v d = (case v of None \<Rightarrow> d | Some x \<Rightarrow> x)"

definition branch_message :: "branch option \<Rightarrow> string \<Rightarrow> string" where
  "branch_message b d = (case b of None \<Rightarrow> d | Some br \<Rightarrow> get_or (br_message br) d)"

definition branch_message_template :: "branch option \<Rightarrow> string \<Rightarrow> string" where
  "branch_message_template b d =
     (case b of None \<Rightarrow> d | Some br \<Rightarrow> get_or (br_message_template br) d)"

definition branch_next_state :: "branch option \<Rightarrow> string \<Rightarrow> string" where
  "branch_next_state b d = (case b of None \<Rightarrow> d | Some br \<Rightarrow> get_or (br_next_state br) d)"

definition responses_get :: "state_def \<Rightarrow> string \<Rightarrow> string list" where
  "responses_get st k =
     (case valid_responses st of None \<Rightarrow> [] | Some vr \<Rightarrow> get_or (vr k) [])"

definition handle_initial ::
  "dialogue_manager \<Rightarrow> string \<Rightarrow> string option \<Rightarrow> (error + reply) \<times> dialogue_manager" where
  "handle_initial dm phone_number user_name =
     (let initial_state = states_get dm ''INITIAL'';
          message_template = get_or (st_message_template initial_state) [];
          name = (case user_name of
                    None \<Rightarrow> ''there''
                  | Some n \<Rightarrow> if n = [] then ''there'' else n);
          msg = str_replace ''{name}'' name message_template;
          next_state = get_or (st_next_state initial_state) ''AWAITING_INTEREST''
      in (Inr (msg, False), update_user_state dm phone_number next_state None))"

text \<open>
  In \<^verbatim>\<open>_handle_interest_response\<close> the unclear branch tests
  \<^verbatim>\<open>self.llm.is_enabled() and user_state['retry_count'] < ...\<close>. The name
  \<^verbatim>\<open>user_state\<close> is neither a parameter, nor a local, nor a global of the module, so
  evaluating the second conjunct raises \<^verbatim>\<open>NameError\<close>; \<^verbatim>\<open>and\<close> evaluates it
  exactly when \<^verbatim>\<open>is_enabled()\<close> is true. The body of that \<^verbatim>\<open>if\<close> (increment and
  persist \<^verbatim>\<open>retry_count\<close>, call the generator) is therefore never reached.
\<close>

definition handle_interest_response ::
  "dialogue_manager \<Rightarrow> string \<Rightarrow> string \<Rightarrow> (error + reply) \<times> dialogue_manager" where
  "handle_interest_response dm phone_number msg =
     (let state = states_get dm ''AWAITING_INTEREST'' in
      if any_keyword_in (get_or (positive_keywords state) []) msg then
        (Inr (branch_message (on_positive state) ''Great! Let me ask you a few questions.'', False),
         update_user_state dm phone_number
           (branch_next_state (on_positive state) ''QUESTION_1'') None)
      else if any_keyword_in (get_or (negative_keywords state) []) msg then
        (Inr (branch_message (on_negative state) ''No problem! Have a great day!'', True),
         update_user_state dm phone_number ''END'' None)
      else if is_enabled (llm dm) then
        (Inl (NameError ''user_state''), dm)
      else
        (Inr (branch_message (on_unclear state) ''Please reply with Yes or No.'', False), dm))"

definition handle_question ::
  "dialogue_manager \<Rightarrow> string \<Rightarrow> state_def \<Rightarrow> (error + reply) \<times> dialogue_manager" where
  "handle_question dm phone_number state =
     (Inr (get_or (st_message state) [], False),
      update_user_state dm phone_number (get_or (st_next_state state) ''END'') None)"

text \<open>
  \<^verbatim>\<open>x in list_of_strings\<close> is false for an integer \<open>x\<close>; \<^verbatim>\<open>income >= minimum\<close>
  raises \<^verbatim>\<open>TypeError\<close> when \<open>income\<close> is a string.
\<close>

definition scalar_in :: "scalar \<Rightarrow> string list \<Rightarrow> bool" where
  "scalar_in v xs = (case v of SStr x \<Rightarrow> x \<in> set xs | SInt i \<Rightarrow> False)"

definition empty_rules :: rules where
  "empty_rules =
     \<lparr>r_employment_type = None, r_monthly_income_minimum = None, r_residency_status = None\<rparr>"

definition handle_eligibility ::
  "dialogue_manager \<Rightarrow> string \<Rightarrow> (error + reply) \<times> dialogue_manager" where
  "handle_eligibility dm phone_number =
     (case get_user_state dm phone_number of
        (user_state, dm1) \<Rightarrow>
          (let data = conversation_data user_state;
               state = states_get dm1 ''EVALUATE_ELIGIBILITY'';
               qrules = get_or (qualification_rules state) empty_rules;
               employment = get_or (data ''employment_type'') (SStr []);
               income = get_or (data ''monthly_income'') (SInt 0);
               residency = get_or (data ''residency_status'') (SStr []);
               valid_employment = scalar_in employment (get_or (r_employment_type qrules) [])
           in case income of
                SStr x \<Rightarrow> (Inl TypeError, dm1)
              | SInt i \<Rightarrow>
                  (let valid_income = (i \<ge> get_or (r_monthly_income_minimum qrules) 5000);
                       valid_residency =
                         scalar_in residency (get_or (r_residency_status qrules) [])
                   in if valid_employment \<and> valid_income \<and> valid_residency then
                        (Inr (str_replace ''{calendly_link}''
                                (get_or (calendly_link (dialogue_data dm1)) ''https://calendly.com'')
                                (branch_message_template (on_qualified state) []), True),
                         update_user_state
                           (dm1\<lparr>user_states := (user_states dm1)
                                  (phone_number \<mapsto> user_state\<lparr>outcome := Some ''qualified''\<rparr>)\<rparr>)
                           phone_number ''END'' None)
                      else
                        (Inr (branch_message (on_not_qualified state) ''Thank you for your time.'',
                              True),
                         update_user_state
                           (dm1\<lparr>user_states := (user_states dm1)
                                  (phone_number \<mapsto> user_state\<lparr>outcome := Some ''disqualified''\<rparr>)\<rparr>)
                           phone_number ''END'' None))))"

definition handle_answer ::
  "dialogue_manager \<Rightarrow> string \<Rightarrow> string \<Rightarrow> string \<Rightarrow> (error + reply) \<times> dialogue_manager" where
  "handle_answer dm phone_number msg state_id =
     (let state = states_get dm state_id in
      case get_user_state dm phone_number of
        (user_state, dm1) \<Rightarrow>
          if state_id = ''AWAITING_ANSWER_1'' then
            (if any_keyword_in (responses_get state ''salaried'') msg then
               (Inr (branch_message (on_valid state) ''Got it!'', False),
                update_user_state dm1 phone_number ''QUESTION_2''
                  (Some [get_or (store_as state) ''employment_type'' \<mapsto> SStr ''salaried'']))
             else if any_keyword_in (responses_get state ''self-employed'') msg then
               (Inr (branch_message (on_valid state) ''Got it!'', False),
                update_user_state dm1 phone_number ''QUESTION_2''
                  (Some [get_or (store_as state) ''employment_type'' \<mapsto> SStr ''self-employed'']))
             else
               (Inr (branch_message (on_invalid state)
                       ''Please specify Salaried or Self-employed.'', False), dm1))
          else if state_id = ''AWAITING_ANSWER_2'' then
            (case re_findall_digits msg of
               [] \<Rightarrow>
                 (Inr (branch_message (on_invalid state) ''Please provide a numeric value.'',
                       False), dm1)
             | n # ns \<Rightarrow>
                 (let income = int_of_str n;
                      minimum = get_or (minimum_income state) 5000
                  in if income < minimum then
                       (Inr (branch_message (on_below_minimum state)
                               ''Thank you for your interest.'', True),
                        update_user_state dm1 phone_number ''END'' None)
                     else
                       (Inr (branch_message (on_valid state) ''Thank you!'', False),
                        update_user_state dm1 phone_number ''QUESTION_3''
                          (Some [get_or (store_as state) ''monthly_income'' \<mapsto> SInt income]))))
          else if state_id = ''AWAITING_ANSWER_3'' then
            (if any_keyword_in (responses_get state ''uae_national'') msg then
               handle_eligibility
                 (update_user_state dm1 phone_number ''EVALUATE_ELIGIBILITY''
                    (Some [get_or (store_as state) ''residency_status'' \<mapsto> SStr ''uae_national'']))
                 phone_number
             else if any_keyword_in (responses_get state ''expatriate'') msg then
               handle_eligibility
                 (update_user_state dm1 phone_number ''EVALUATE_ELIGIBILITY''
                    (Some [get_or (store_as state) ''residency_status'' \<mapsto> SStr ''expatriate'']))
                 phone_number
             else
               (Inr (branch_message (on_invalid state)
                       ''Please specify UAE National or Expatriate.'', False), dm1))
          else
            (Inr (''I didn't understand. Please try again.'', False), dm1))"

definition handle_error ::
  "dialogue_manager \<Rightarrow> string \<Rightarrow> (error + reply) \<times> dialogue_manager" where
  "handle_error dm phone_number =
     (Inr (case error_handling (dialogue_data dm) of
             None \<Rightarrow> ''I'm experiencing technical difficulties.''
           | Some eh \<Rightarrow>
               get_or (technical_error_message eh) ''I'm experiencing technical difficulties.'',
           True),
      update_user_state dm phone_number ''END'' None)"

definition closing_message :: string where
  "closing_message =
     ''Thank you! Your conversation has ended. Feel free to start a new conversation anytime.''"

definition process_message ::
  "dialogue_manager \<Rightarrow> string \<Rightarrow> string \<Rightarrow> string option
     \<Rightarrow> (error + reply) \<times> dialogue_manager" where
  "process_message dm phone_number msg user_name =
     (case get_user_state dm phone_number of
        (user_state, dm1) \<Rightarrow>
          (let current_state_id = current_state user_state in
           if current_state_id = ''INITIAL'' then handle_initial dm1 phone_number user_name
           else if current_state_id = ''END'' then (Inr (closing_message, True), dm1)
           else
             (case states (dialogue_data dm1) current_state_id of
                None \<Rightarrow> handle_error dm1 phone_number
              | Some cur \<Rightarrow>
                  (let message_lower = str_strip (str_lower msg) in
                   if current_state_id = ''AWAITING_INTEREST'' then
                     handle_interest_response dm1 phone_number message_lower
                   else if prefix ''AWAITING_ANSWER'' current_state_id then
                     handle_answer dm1 phone_number message_lower current_state_id
                   else if current_state_id = ''EVALUATE_ELIGIBILITY'' then
                     handle_eligibility dm1 phone_number
                   else if prefix ''QUESTION'' current_state_id then
                     handle_question dm1 phone_number cur
                   else handle_error dm1 phone_number))))"

text \<open>\<^verbatim>\<open>reset_user\<close>\<close>

definition reset_user :: "dialogue_manager \<Rightarrow> string \<Rightarrow> dialogue_manager" where
  "reset_user dm phone_number =
     dm\<lparr>user_states := (user_states dm)(phone_number := None),
        store := store_delete (store dm) phone_number\<rparr>"

section \<open>The conversation store on the file\<close>

text \<open>
  The \<^verbatim>\<open>ConversationStore\<close> on the file itself. The file is missing or holds a text;
  \<^verbatim>\<open>_read_all\<close> returns \<^verbatim>\<open>json.load\<close> of it, or the empty dictionary when that
  raises. \<^verbatim>\<open>_write_all\<close> writes \<^verbatim>\<open>json.dump\<close> of the data, or fails as the
  environment decides; a torn write leaves the truncated file, taken to be empty.
  \<^verbatim>\<open>get\<close> and \<^verbatim>\<open>set\<close> are not guarded: on a file that holds JSON other than an
  object they raise.
\<close>

record store_on_disk =
  file_text :: "string option"
  disk_writes :: "write_outcome list"

definition read_all_text :: "store_on_disk \<Rightarrow> json" where
  "read_all_text d =
     (case file_text d of
        None \<Rightarrow> JObj MNil
      | Some t \<Rightarrow> (case json_loads t of None \<Rightarrow> JObj MNil | Some v \<Rightarrow> v))"

definition write_all_text :: "store_on_disk \<Rightarrow> json \<Rightarrow> store_on_disk" where
  "write_all_text d v =
     (case next_outcome (disk_writes d) of
        Written \<Rightarrow> d\<lparr>file_text := Some (json_dumps v), disk_writes := tl (disk_writes d)\<rparr>
      | Refused \<Rightarrow> d\<lparr>disk_writes := tl (disk_writes d)\<rparr>
      | Torn \<Rightarrow> d\<lparr>file_text := Some [], disk_writes := tl (disk_writes d)\<rparr>)"

definition get_text :: "store_on_disk \<Rightarrow> string \<Rightarrow> error + json option" where
  "get_text d phone_number =
     (case read_all_text d of
        JObj m \<Rightarrow> Inr (m_lookup m phone_number)
      | _ \<Rightarrow> Inl AttributeError)"

definition set_text :: "store_on_disk \<Rightarrow> string \<Rightarrow> json \<Rightarrow> error + store_on_disk" where
  "set_text d phone_number state =
     (case read_all_text d of
        JObj m \<Rightarrow> Inr (write_all_text d (JObj (m_update phone_number state m)))
      | _ \<Rightarrow> Inl TypeError)"

text \<open>
  A conversation state as the dictionary the engine builds, keys in the order of
  \<^verbatim>\<open>get_user_state\<close>, with the answers given as a list of distinct keys and values;
  and the record a stored dictionary stands for, as the engine reads it.
\<close>

definition json_of_scalar :: "scalar \<Rightarrow> json" where
  "json_of_scalar v = (case v of SStr s \<Rightarrow> JStr s | SInt i \<Rightarrow> JInt i)"

primrec members_of :: "(string \<times> scalar) list \<Rightarrow> members" where
  "members_of [] = MNil"
| "members_of (kv # rest) = MCons (fst kv) (json_of_scalar (snd kv)) (members_of rest)"

definition json_of_state ::
  "string \<Rightarrow> (string \<times> scalar) list \<Rightarrow> int \<Rightarrow> int \<Rightarrow> string option \<Rightarrow> json" where
  "json_of_state cs kvs mc rc oc =
     JObj (MCons ''current_state'' (JStr cs)
          (MCons ''conversation_data'' (JObj (members_of kvs))
          (MCons ''message_count'' (JInt mc)
          (MCons ''retry_count'' (JInt rc)
          (MCons ''outcome'' (case oc of None \<Rightarrow> JNull | Some x \<Rightarrow> JStr x) MNil)))))"

definition scalar_of_json :: "json \<Rightarrow> scalar option" where
  "scalar_of_json j = (case j of JStr s \<Rightarrow> Some (SStr s) | JInt i \<Rightarrow> Some (SInt i) | _ \<Rightarrow> None)"

primrec all_scalars :: "members \<Rightarrow> bool" where
  "all_scalars MNil = True"
| "all_scalars (MCons k v rest) = (scalar_of_json v \<noteq> None \<and> all_scalars rest)"

definition answers_of :: "members \<Rightarrow> (string \<rightharpoonup> scalar)" where
  "answers_of m = (\<lambda>k. Option.bind (m_lookup m k) scalar_of_json)"

definition as_str :: "json option \<Rightarrow> string option" where
  "as_str j = (case j of Some (JStr s) \<Rightarrow> Some s | _ \<Rightarrow> None)"

definition as_int :: "json option \<Rightarrow> int option" where
  "as_int j = (case j of Some (JInt i) \<Rightarrow> Some i | _ \<Rightarrow> None)"

definition as_answers :: "json option \<Rightarrow> (string \<rightharpoonup> scalar) option" where
  "as_answers j =
     (case j of
        Some (JObj m) \<Rightarrow> if all_scalars m then Some (answers_of m) else None
      | _ \<Rightarrow> None)"

definition as_outcome :: "json option \<Rightarrow> string option option" where
  "as_outcome j =
     (case j of Some JNull \<Rightarrow> Some None | Some (JStr s) \<Rightarrow> Some (Some s) | _ \<Rightarrow> None)"

definition state_of_json :: "json \<Rightarrow> conv_state option" where
  "state_of_json j =
     (case j of
        JObj m \<Rightarrow>
          (case as_str (m_lookup m ''current_state'') of None \<Rightarrow> None | Some cs \<Rightarrow>
           case as_answers (m_lookup m ''conversation_data'') of None \<Rightarrow> None | Some cd \<Rightarrow>
           case as_int (m_lookup m ''message_count'') of None \<Rightarrow> None | Some mc \<Rightarrow>
           case as_int (m_lookup m ''retry_count'') of None \<Rightarrow> None | Some rc \<Rightarrow>
           case as_outcome (m_lookup m ''outcome'') of None \<Rightarrow> None | Some oc \<Rightarrow>
             Some \<lparr>current_state = cs, conversation_data = cd, message_count = mc,
                   retry_count = rc, outcome = oc\<rparr>)
      | _ \<Rightarrow> None)"

text \<open>
  The parsed form of a file, which is what the engine's store above holds: a file that
  is missing or does not parse is unreadable, and a file that parses to a dictionary
  holds the records its values stand for (a value that is not a state record stands for
  none). A file that parses to JSON other than an object has no parsed form: on it
  \<^verbatim>\<open>get\<close> and \<^verbatim>\<open>set\<close> raise, the store never writes such a file, and the engine
  is modelled on the other files.
\<close>

definition parsed_view :: "store_on_disk \<Rightarrow> conversation_store option" where
  "parsed_view d =
     (case file_text d of
        None \<Rightarrow> Some \<lparr>content = Unreadable, next_writes = disk_writes d\<rparr>
      | Some t \<Rightarrow>
          (case json_loads t of
             None \<Rightarrow> Some \<lparr>content = Unreadable, next_writes = disk_writes d\<rparr>
           | Some v \<Rightarrow>
               (case v of
                  JObj m \<Rightarrow>
                    Some \<lparr>content = Contents (\<lambda>p. Option.bind (m_lookup m p) state_of_json),
                          next_writes = disk_writes d\<rparr>
                | _ \<Rightarrow> None)))"

section \<open>A sample flow and sample managers\<close>

text \<open>
  The flow file itself is data of the deployment. The sample below has the states the
  engine names, the qualification rules \<open>employment_type \<in> {salaried, self-employed}\<close>,
  \<open>monthly_income_minimum = 5000\<close>, \<open>residency_status \<in> {uae_national, expatriate}\<close>
  and \<open>max_retries = 2\<close>; it is used to run the definitions on concrete inputs.
\<close>

definition just_message :: "string \<Rightarrow> branch" where
  "just_message m = \<lparr>br_message = Some m, br_message_template = None, br_next_state = None\<rparr>"

definition sample_initial :: state_def where
  "sample_initial = empty_state
     \<lparr>st_message_template := Some ''Hi {name}! Are you interested in a mortgage?'',
      st_next_state := Some ''AWAITING_INTEREST''\<rparr>"

definition sample_interest :: state_def where
  "sample_interest = empty_state
     \<lparr>positive_keywords := Some [''yes'', ''sure''],
      negative_keywords := Some [''no'', ''stop''],
      on_positive := Some \<lparr>br_message = Some ''Great!'', br_message_template = None,
                            br_next_state = Some ''QUESTION_1''\<rparr>,
      on_negative := Some (just_message ''No problem.''),
      on_unclear := Some (just_message ''Please answer Yes or No.'')\<rparr>"

definition sample_question :: "string \<Rightarrow> string \<Rightarrow> state_def" where
  "sample_question m nxt = empty_state\<lparr>st_message := Some m, st_next_state := Some nxt\<rparr>"

definition sample_answer_1 :: state_def where
  "sample_answer_1 = empty_state
     \<lparr>valid_responses := Some [''salaried'' \<mapsto> [''salaried'', ''employee''],
                                ''self-employed'' \<mapsto> [''self'', ''business'']],
      store_as := Some ''employment_type'',
      on_valid := Some (just_message ''Got it.''),
      on_invalid := Some (just_message ''Salaried or self-employed?'')\<rparr>"

definition sample_answer_2 :: state_def where
  "sample_answer_2 = empty_state
     \<lparr>store_as := Some ''monthly_income'',
      minimum_income := Some 5000,
      on_valid := Some (just_message ''Thanks.''),
      on_invalid := Some (just_message ''Please send a number.''),
      on_below_minimum := Some (just_message ''Sorry, the minimum income is 5000.'')\<rparr>"

definition sample_answer_3 :: state_def where
  "sample_answer_3 = empty_state
     \<lparr>valid_responses := Some [''uae_national'' \<mapsto> [''national'', ''emirati''],
                                ''expatriate'' \<mapsto> [''expat'']],
      store_as := Some ''residency_status'',
      on_invalid := Some (just_message ''UAE national or expatriate?'')\<rparr>"

definition sample_rules :: rules where
  "sample_rules =
     \<lparr>r_employment_type = Some [''salaried'', ''self-employed''],
      r_monthly_income_minimum = Some 5000,
      r_residency_status = Some [''uae_national'', ''expatriate'']\<rparr>"

definition sample_eligibility :: state_def where
  "sample_eligibility = empty_state
     \<lparr>qualification_rules := Some sample_rules,
      on_qualified := Some \<lparr>br_message = None,
                             br_message_template = Some ''Book a call: {calendly_link}'',
                             br_next_state = None\<rparr>,
      on_not_qualified := Some (just_message ''Sorry, you do not qualify.'')\<rparr>"

definition sample_flow :: flow where
  "sample_flow =
     \<lparr>states =
        [''INITIAL'' \<mapsto> sample_initial,
         ''AWAITING_INTEREST'' \<mapsto> sample_interest,
         ''QUESTION_1'' \<mapsto> sample_question ''Salaried or self-employed?'' ''AWAITING_ANSWER_1'',
         ''AWAITING_ANSWER_1'' \<mapsto> sample_answer_1,
         ''QUESTION_2'' \<mapsto> sample_question ''What is your monthly income?'' ''AWAITING_ANSWER_2'',
         ''AWAITING_ANSWER_2'' \<mapsto> sample_answer_2,
         ''QUESTION_3'' \<mapsto> sample_question ''UAE national or expatriate?'' ''AWAITING_ANSWER_3'',
         ''AWAITING_ANSWER_3'' \<mapsto> sample_answer_3,
         ''EVALUATE_ELIGIBILITY'' \<mapsto> sample_eligibility],
      calendly_link = Some ''https://calendly.com/demo'',
      error_handling = Some \<lparr>max_retries = Some 2,
                               technical_error_message = Some ''Technical difficulties.''\<rparr>,
      product_hook = Some ''Mortgage offer''\<rparr>"

definition llm_on :: gemini_adapter where
  "llm_on = \<lparr>enabled = True, model_loaded = True\<rparr>"

definition llm_off :: gemini_adapter where
  "llm_off = \<lparr>enabled = False, model_loaded = False\<rparr>"

text \<open>A sender record at a given state with given answers and no outcome.\<close>

definition user_at :: "string \<Rightarrow> (string \<rightharpoonup> scalar) \<Rightarrow> conv_state" where
  "user_at sid answers =
     \<lparr>current_state = sid, conversation_data = answers, message_count = 3,
      retry_count = 0, outcome = None\<rparr>"

text \<open>A store whose file holds the given records and whose writes all succeed.\<close>

definition working_store :: "(string \<rightharpoonup> conv_state) \<Rightarrow> conversation_store" where
  "working_store us = \<lparr>content = Contents us, next_writes = []\<rparr>"

text \<open>A manager over the sample flow whose memory and store file hold the same records.\<close>

definition sample_manager ::
  "gemini_adapter \<Rightarrow> (string \<rightharpoonup> conv_state) \<Rightarrow> dialogue_manager" where
  "sample_manager g us =
     \<lparr>dialogue_data = sample_flow, llm = g, user_states = us, store = working_store us\<rparr>"

text \<open>The same manager after a restart: the memory is empty, the store file is kept.\<close>

definition restarted_manager ::
  "gemini_adapter \<Rightarrow> (string \<rightharpoonup> conv_state) \<Rightarrow> dialogue_manager" where
  "restarted_manager g us =
     \<lparr>dialogue_data = sample_flow, llm = g, user_states = Map.empty, store = working_store us\<rparr>"

section \<open>Named parts of the engine\<close>

text \<open>
  The rule set read by \<^verbatim>\<open>_handle_eligibility\<close>, the mutation \<^verbatim>\<open>update_user_state\<close>
  applies to a record, and the conjunction \<^verbatim>\<open>valid_employment and valid_income and
  valid_residency\<close> for an integer income \<open>i\<close>.
\<close>

definition eligibility_rules :: "dialogue_manager \<Rightarrow> rules" where
  "eligibility_rules dm =
     get_or (qualification_rules (states_get dm ''EVALUATE_ELIGIBILITY'')) empty_rules"

definition applied_update :: "conv_state \<Rightarrow> string \<Rightarrow> (string \<rightharpoonup> scalar) option \<Rightarrow> conv_state" where
  "applied_update u state data =
     u\<lparr>current_state := state,
       message_count := message_count u + 1,
       conversation_data :=
         (case data of None \<Rightarrow> conversation_data u | Some d \<Rightarrow> conversation_data u ++ d)\<rparr>"


definition verdict :: "rules \<Rightarrow> (string \<rightharpoonup> scalar) \<Rightarrow> int \<Rightarrow> bool" where
  "verdict qrules data i =
     (scalar_in (get_or (data ''employment_type'') (SStr [])) (get_or (r_employment_type qrules) [])
      \<and> i \<ge> get_or (r_monthly_income_minimum qrules) 5000
      \<and> scalar_in (get_or (data ''residency_status'') (SStr [])) (get_or (r_residency_status qrules) []))"

section \<open>Calls that only re-prompt\<close>

text \<open>
  The inputs on which \<^verbatim>\<open>process_message\<close> takes a branch that returns a re-prompt
  without calling \<^verbatim>\<open>update_user_state\<close>: an unclear reply at the Yes/No gate while the
  generator is disabled, a reply matching no keyword set at \<^verbatim>\<open>AWAITING_ANSWER_1\<close> or
  \<^verbatim>\<open>AWAITING_ANSWER_3\<close>, a reply without digits at \<^verbatim>\<open>AWAITING_ANSWER_2\<close>, and any
  reply at another configured state whose identifier starts with \<^verbatim>\<open>AWAITING_ANSWER\<close>.
\<close>

definition only_reprompts :: "dialogue_manager \<Rightarrow> string \<Rightarrow> string \<Rightarrow> bool" where
  "only_reprompts dm phone_number msg =
     (let sid = current_state (fst (get_user_state dm phone_number));
          m = str_strip (str_lower msg);
          st = states_get dm sid
      in states (dialogue_data dm) sid \<noteq> None \<and>
         (if sid = ''AWAITING_INTEREST'' then
            \<not> any_keyword_in (get_or (positive_keywords st) []) m \<and>
            \<not> any_keyword_in (get_or (negative_keywords st) []) m \<and>
            \<not> is_enabled (llm dm)
          else if sid = ''AWAITING_ANSWER_1'' then
            \<not> any_keyword_in (responses_get st ''salaried'') m \<and>
            \<not> any_keyword_in (responses_get st ''self-employed'') m
          else if sid = ''AWAITING_ANSWER_2'' then re_findall_digits m = []
          else if sid = ''AWAITING_ANSWER_3'' then
            \<not> any_keyword_in (responses_get st ''uae_national'') m \<and>
            \<not> any_keyword_in (responses_get st ''expatriate'') m
          else prefix ''AWAITING_ANSWER'' sid))"

text \<open>A manager whose memory holds records while the store file cannot be read.\<close>

definition unsynced_manager ::
  "gemini_adapter \<Rightarrow> (string \<rightharpoonup> conv_state) \<Rightarrow> dialogue_manager" where
  "unsynced_manager g us =
     \<lparr>dialogue_data = sample_flow, llm = g, user_states = us,
      store = \<lparr>content = Unreadable, next_writes = []\<rparr>\<rparr>"

section \<open>Eligibility as the specification words it\<close>

text \<open>
  The specification's evaluator: every configured predicate must pass, and a field that
  is missing from the stored answers fails its predicate. A rule the flow leaves out is
  read with the default of the source (no allowed value, minimum 5000). This definition
  follows the specification; \<open>handle_eligibility\<close> above follows the source.
\<close>

definition spec_qualifies :: "rules \<Rightarrow> (string \<rightharpoonup> scalar) \<Rightarrow> bool" where
  "spec_qualifies qrules data =
     ((case data ''employment_type'' of
         Some (SStr e) \<Rightarrow> e \<in> set (get_or (r_employment_type qrules) [])
       | _ \<Rightarrow> False)
      \<and> (case data ''monthly_income'' of
         Some (SInt i) \<Rightarrow> i \<ge> get_or (r_monthly_income_minimum qrules) 5000
       | _ \<Rightarrow> False)
      \<and> (case data ''residency_status'' of
         Some (SStr r) \<Rightarrow> r \<in> set (get_or (r_residency_status qrules) [])
       | _ \<Rightarrow> False))"

text \<open>
  The evaluator as the source has it, in the same words: a field that is missing from
  the stored answers is read as its default (the empty string for the employment type
  and the residency status, 0 for the income) and that default is tested against the
  rule. \<open>income_is_text\<close> says that the stored income is a string; comparing it with the
  minimum raises \<^verbatim>\<open>TypeError\<close>.
\<close>

definition income_is_text :: "(string \<rightharpoonup> scalar) \<Rightarrow> bool" where
  "income_is_text data = (case data ''monthly_income'' of Some (SStr x) \<Rightarrow> True | _ \<Rightarrow> False)"

definition qualifies_with_defaults :: "rules \<Rightarrow> (string \<rightharpoonup> scalar) \<Rightarrow> bool" where
  "qualifies_with_defaults qrules data =
     ((case data ''employment_type'' of
         None \<Rightarrow> [] \<in> set (get_or (r_employment_type qrules) [])
       | Some (SStr e) \<Rightarrow> e \<in> set (get_or (r_employment_type qrules) [])
       | Some (SInt i) \<Rightarrow> False)
      \<and> (case data ''monthly_income'' of
         None \<Rightarrow> 0 \<ge> get_or (r_monthly_income_minimum qrules) 5000
       | Some (SInt i) \<Rightarrow> i \<ge> get_or (r_monthly_income_minimum qrules) 5000
       | Some (SStr x) \<Rightarrow> False)
      \<and> (case data ''residency_status'' of
         None \<Rightarrow> [] \<in> set (get_or (r_residency_status qrules) [])
       | Some (SStr r) \<Rightarrow> r \<in> set (get_or (r_residency_status qrules) [])
       | Some (SInt i) \<Rightarrow> False))"

text \<open>
  Further sample data: the three answers as a dictionary, the sample flow with
  \<open>monthly_income_minimum = 0\<close>, and a manager over that flow.
\<close>

definition answers :: "string \<Rightarrow> int \<Rightarrow> string \<Rightarrow> (string \<rightharpoonup> scalar)" where
  "answers e i r =
     [''employment_type'' \<mapsto> SStr e, ''monthly_income'' \<mapsto> SInt i, ''residency_status'' \<mapsto> SStr r]"

definition zero_minimum_flow :: flow where
  "zero_minimum_flow = sample_flow
     \<lparr>states := (states sample_flow)
        (''EVALUATE_ELIGIBILITY'' \<mapsto> sample_eligibility
           \<lparr>qualification_rules := Some (sample_rules\<lparr>r_monthly_income_minimum := Some 0\<rparr>)\<rparr>)\<rparr>"

definition zero_minimum_manager :: "(string \<rightharpoonup> conv_state) \<Rightarrow> dialogue_manager" where
  "zero_minimum_manager us =
     \<lparr>dialogue_data = zero_minimum_flow, llm = llm_off, user_states = us, store = working_store us\<rparr>"

section \<open>Basic facts\<close>

lemmas store_defs =
  store_get_def store_set_def store_delete_def read_all_def write_all_def next_outcome_def
  working_store_def

lemmas sample_defs =
  sample_manager_def restarted_manager_def unsynced_manager_def sample_flow_def answers_def sample_initial_def
  sample_interest_def sample_question_def sample_answer_1_def sample_answer_2_def
  sample_answer_3_def sample_eligibility_def sample_rules_def just_message_def
  llm_on_def llm_off_def user_at_def empty_state_def empty_rules_def

lemmas reader_defs =
  states_get_def get_or_def branch_message_def branch_message_template_def
  branch_next_state_def responses_get_def any_keyword_in_def scalar_in_def is_enabled_def

lemmas char_defs = is_digit_def is_space_def is_upper_def char_lower_def

lemma sample_manager_writes [simp]:
  "next_outcome (next_writes (store (sample_manager g us))) = Written"
  by (simp add: sample_manager_def working_store_def next_outcome_def)

lemma get_user_state_store [simp]: "store (snd (get_user_state dm p)) = store dm"
  by (simp add: get_user_state_def split: option.splits)

lemma get_user_state_flow [simp]:
  "dialogue_data (snd (get_user_state dm p)) = dialogue_data dm"
  by (simp add: get_user_state_def split: option.splits)

lemma get_user_state_llm [simp]: "llm (snd (get_user_state dm p)) = llm dm"
  by (simp add: get_user_state_def split: option.splits)

lemma get_user_state_cached [simp]:
  "user_states (snd (get_user_state dm p)) p = Some (fst (get_user_state dm p))"
  by (simp add: get_user_state_def split: option.splits)

lemma get_user_state_again:
  "get_user_state (snd (get_user_state dm p)) p =
     (fst (get_user_state dm p), snd (get_user_state dm p))"
  by (simp add: get_user_state_def split: option.splits)

lemma states_get_snd [simp]:
  "states_get (snd (get_user_state dm p)) sid = states_get dm sid"
  by (simp add: states_get_def)

text \<open>Routing of \<^verbatim>\<open>process_message\<close> to the handlers.\<close>

lemma process_message_at_gate:
  assumes "current_state (fst (get_user_state dm p)) = ''AWAITING_INTEREST''"
    and "states (dialogue_data dm) ''AWAITING_INTEREST'' = Some st"
  shows "process_message dm p msg user_name =
           handle_interest_response (snd (get_user_state dm p)) p (str_strip (str_lower msg))"
  using assms
  by (simp add: process_message_def case_prod_beta Let_def)

lemma process_message_at_answer:
  assumes "prefix ''AWAITING_ANSWER'' (current_state (fst (get_user_state dm p)))"
    and "states (dialogue_data dm) (current_state (fst (get_user_state dm p))) = Some st"
  shows "process_message dm p msg user_name =
           handle_answer (snd (get_user_state dm p)) p (str_strip (str_lower msg))
             (current_state (fst (get_user_state dm p)))"
proof -
  have "current_state (fst (get_user_state dm p)) \<noteq> ''INITIAL''"
       "current_state (fst (get_user_state dm p)) \<noteq> ''END''"
       "current_state (fst (get_user_state dm p)) \<noteq> ''AWAITING_INTEREST''"
    using assms(1) by auto
  then show ?thesis
    using assms by (simp add: process_message_def case_prod_beta Let_def)
qed

text \<open>\<^verbatim>\<open>_handle_answer\<close> on a manager that has already resolved the sender.\<close>

lemma handle_answer_unfold:
  "handle_answer (snd (get_user_state dm p)) p m sid =
     (let state = states_get dm sid; dm1 = snd (get_user_state dm p) in
          if sid = ''AWAITING_ANSWER_1'' then
            (if any_keyword_in (responses_get state ''salaried'') m then
               (Inr (branch_message (on_valid state) ''Got it!'', False),
                update_user_state dm1 p ''QUESTION_2''
                  (Some [get_or (store_as state) ''employment_type'' \<mapsto> SStr ''salaried'']))
             else if any_keyword_in (responses_get state ''self-employed'') m then
               (Inr (branch_message (on_valid state) ''Got it!'', False),
                update_user_state dm1 p ''QUESTION_2''
                  (Some [get_or (store_as state) ''employment_type'' \<mapsto> SStr ''self-employed'']))
             else
               (Inr (branch_message (on_invalid state)
                       ''Please specify Salaried or Self-employed.'', False), dm1))
          else if sid = ''AWAITING_ANSWER_2'' then
            (case re_findall_digits m of
               [] \<Rightarrow>
                 (Inr (branch_message (on_invalid state) ''Please provide a numeric value.'',
                       False), dm1)
             | n # ns \<Rightarrow>
                 (let income = int_of_str n;
                      minimum = get_or (minimum_income state) 5000
                  in if income < minimum then
                       (Inr (branch_message (on_below_minimum state)
                               ''Thank you for your interest.'', True),
                        update_user_state dm1 p ''END'' None)
                     else
                       (Inr (branch_message (on_valid state) ''Thank you!'', False),
                        update_user_state dm1 p ''QUESTION_3''
                          (Some [get_or (store_as state) ''monthly_income'' \<mapsto> SInt income]))))
          else if sid = ''AWAITING_ANSWER_3'' then
            (if any_keyword_in (responses_get state ''uae_national'') m then
               handle_eligibility
                 (update_user_state dm1 p ''EVALUATE_ELIGIBILITY''
                    (Some [get_or (store_as state) ''residency_status'' \<mapsto> SStr ''uae_national'']))
                 p
             else if any_keyword_in (responses_get state ''expatriate'') m then
               handle_eligibility
                 (update_user_state dm1 p ''EVALUATE_ELIGIBILITY''
                    (Some [get_or (store_as state) ''residency_status'' \<mapsto> SStr ''expatriate'']))
                 p
             else
               (Inr (branch_message (on_invalid state)
                       ''Please specify UAE National or Expatriate.'', False), dm1))
          else
            (Inr (''I didn't understand. Please try again.'', False), dm1))"
  by (simp add: handle_answer_def get_user_state_again Let_def case_prod_beta)

lemma reprompt_step:
  assumes "only_reprompts dm p msg"
  shows "\<exists>r. process_message dm p msg user_name =
           (Inr (r, False), snd (get_user_state dm p))"
proof -
  let ?sid = "current_state (fst (get_user_state dm p))"
  from assms obtain st where st: "states (dialogue_data dm) ?sid = Some st"
    by (auto simp: only_reprompts_def Let_def)
  show ?thesis
  proof (cases "?sid = ''AWAITING_INTEREST''")
    case True
    with assms st show ?thesis
      by (simp add: process_message_at_gate [of dm p st] only_reprompts_def
          handle_interest_response_def Let_def)
  next
    case False
    with assms have pre: "prefix ''AWAITING_ANSWER'' ?sid"
      by (auto simp: only_reprompts_def Let_def split: if_splits)
    show ?thesis
      using assms False
      by (simp add: process_message_at_answer [OF pre st] handle_answer_unfold
          only_reprompts_def Let_def split: if_splits)
  qed
qed

lemmas engine_defs =
  process_message_def get_user_state_def update_user_state_def handle_initial_def
  handle_interest_response_def handle_question_def handle_answer_def handle_eligibility_def
  handle_error_def closing_message_def initial_user_state_def

lemmas text_defs = str_strip_def str_lower_def char_defs int_of_str_def digit_value_def

section \<open>Digit runs\<close>

lemma digit_not_upper: "is_digit c \<Longrightarrow> \<not> is_upper c"
  by (auto simp: is_digit_def is_upper_def Let_def)

lemma char_lower_digit [simp]: "is_digit c \<Longrightarrow> char_lower c = c"
  by (simp add: char_lower_def digit_not_upper)

lemma of_char_lower_upper:
  "is_upper c \<Longrightarrow> (of_char (char_lower c) :: nat) = of_char c + 32"
proof (cases c)
  case (Char b0 b1 b2 b3 b4 b5 b6 b7)
  assume u: "is_upper c"
  have "\<not> b5"
    using u unfolding Char is_upper_def Let_def
    by (cases b0; cases b1; cases b2; cases b3; cases b4; cases b5; cases b6; cases b7; simp)
  then show ?thesis
    using u by (simp add: char_lower_def Char)
qed

lemma is_digit_char_lower [simp]: "is_digit (char_lower c) = is_digit c"
proof (cases "is_upper c")
  case True
  then show ?thesis
    using of_char_lower_upper [OF True]
    by (auto simp: is_digit_def is_upper_def Let_def)
next
  case False
  then show ?thesis by (simp add: char_lower_def)
qed

lemma space_not_digit: "is_space c \<Longrightarrow> \<not> is_digit c"
  by (auto simp: is_digit_def is_space_def Let_def)

lemma findall_Nil:
  "dropWhile (\<lambda>c. \<not> is_digit c) s = [] \<Longrightarrow> re_findall_digits s = []"
  by (subst re_findall_digits.simps) (simp del: dropWhile_eq_Nil_conv)

lemma findall_Cons:
  "dropWhile (\<lambda>c. \<not> is_digit c) s = d # t \<Longrightarrow>
     re_findall_digits s = takeWhile is_digit (d # t) # re_findall_digits (dropWhile is_digit t)"
  by (subst re_findall_digits.simps) simp

lemma findall_no_digits:
  "(\<forall>c\<in>set s. \<not> is_digit c) \<Longrightarrow> re_findall_digits s = []"
  by (rule findall_Nil) simp

lemma findall_Nil_iff: "re_findall_digits s = [] \<longleftrightarrow> (\<forall>c\<in>set s. \<not> is_digit c)"
proof (cases "dropWhile (\<lambda>c. \<not> is_digit c) s")
  case Nil
  then show ?thesis using findall_Nil [OF Nil] by simp
next
  case (Cons d t)
  then have "\<not> (\<forall>c\<in>set s. \<not> is_digit c)"
    by (metis dropWhile_eq_Nil_conv list.distinct(1))
  then show ?thesis using findall_Cons [OF Cons] by simp
qed

lemma findall_lower: "re_findall_digits (map char_lower s) = re_findall_digits s"
proof (induction s rule: re_findall_digits.induct)
  case (1 s)
  have dw: "dropWhile (\<lambda>c. \<not> is_digit c) (map char_lower s)
              = map char_lower (dropWhile (\<lambda>c. \<not> is_digit c) s)"
    by (simp add: dropWhile_map comp_def)
  show ?case
  proof (cases "dropWhile (\<lambda>c. \<not> is_digit c) s")
    case Nil
    then have "dropWhile (\<lambda>c. \<not> is_digit c) (map char_lower s) = []"
      by (simp only: dw list.map)
    then show ?thesis using findall_Nil Nil by metis
  next
    case (Cons d t)
    have dig: "is_digit d"
      using Cons by (metis hd_dropWhile list.sel(1) list.distinct(1))
    have tw: "takeWhile is_digit (map char_lower (d # t)) = takeWhile is_digit (d # t)"
    proof -
      have "takeWhile is_digit (map char_lower (d # t))
              = map char_lower (takeWhile is_digit (d # t))"
        by (simp only: takeWhile_map comp_def is_digit_char_lower)
      also have "\<dots> = takeWhile is_digit (d # t)"
        by (rule map_idI) (auto dest: set_takeWhileD)
      finally show ?thesis .
    qed
    have dd: "dropWhile is_digit (map char_lower t) = map char_lower (dropWhile is_digit t)"
      by (simp add: dropWhile_map comp_def)
    have ih: "re_findall_digits (map char_lower (dropWhile is_digit t))
                = re_findall_digits (dropWhile is_digit t)"
      using "1.IH" [OF Cons] .
    have "dropWhile (\<lambda>c. \<not> is_digit c) (map char_lower s) = char_lower d # map char_lower t"
      by (simp only: dw Cons list.map)
    from findall_Cons [OF this] findall_Cons [OF Cons] show ?thesis
      using tw dd ih by simp
  qed
qed

lemma dropWhile_weaker:
  "(\<And>x. P x \<Longrightarrow> Q x) \<Longrightarrow> dropWhile Q (dropWhile P xs) = dropWhile Q xs"
  by (induction xs) auto

lemma findall_lstrip: "re_findall_digits (dropWhile is_space s) = re_findall_digits s"
proof -
  have "dropWhile (\<lambda>c. \<not> is_digit c) (dropWhile is_space s) = dropWhile (\<lambda>c. \<not> is_digit c) s"
    by (rule dropWhile_weaker) (rule space_not_digit)
  then show ?thesis
    by (subst re_findall_digits.simps, subst (2) re_findall_digits.simps) (simp only:)
qed

lemma findall_append_no_digits:
  "(\<forall>c\<in>set b. \<not> is_digit c) \<Longrightarrow> re_findall_digits (a @ b) = re_findall_digits a"
proof (induction a rule: re_findall_digits.induct)
  case (1 s)
  note nd = "1.prems"
  have tb: "takeWhile is_digit b = []" using nd by (cases b) auto
  have db: "dropWhile is_digit b = b" using nd by (cases b) auto
  show ?case
  proof (cases "dropWhile (\<lambda>c. \<not> is_digit c) s")
    case Nil
    then have "\<forall>c\<in>set (s @ b). \<not> is_digit c"
      using nd by (auto simp: dropWhile_eq_Nil_conv)
    then have "re_findall_digits (s @ b) = []" by (rule findall_no_digits)
    moreover have "re_findall_digits s = []"
      using Nil by (rule findall_Nil)
    ultimately show ?thesis by simp
  next
    case (Cons d t)
    then have ex: "\<not> (\<forall>x\<in>set s. \<not> is_digit x)"
      by (metis dropWhile_eq_Nil_conv list.distinct(1))
    from ex obtain x where x: "x \<in> set s" "is_digit x" by blast
    have "dropWhile (\<lambda>c. \<not> is_digit c) (s @ b) = dropWhile (\<lambda>c. \<not> is_digit c) s @ b"
      using x by (intro dropWhile_append1 [of x]) simp_all
    then have dws: "dropWhile (\<lambda>c. \<not> is_digit c) (s @ b) = d # (t @ b)"
      by (simp add: Cons)
    have dig: "is_digit d"
      using Cons by (metis hd_dropWhile list.sel(1) list.distinct(1))
    have ih: "re_findall_digits (dropWhile is_digit t @ b) = re_findall_digits (dropWhile is_digit t)"
      using "1.IH" [OF Cons nd] .
    show ?thesis
    proof (cases "\<forall>x\<in>set t. is_digit x")
      case True
      then have t1: "takeWhile is_digit (t @ b) = t" and t2: "dropWhile is_digit (t @ b) = b"
        and t3: "takeWhile is_digit t = t" and t4: "dropWhile is_digit t = []"
        using tb db by (simp_all add: takeWhile_append dropWhile_append)
      have "re_findall_digits (s @ b) = (d # t) # re_findall_digits b"
        using findall_Cons [OF dws] dig by (simp add: t1 t2)
      moreover have "re_findall_digits s = (d # t) # re_findall_digits []"
        using findall_Cons [OF Cons] dig by (simp add: t3 t4)
      moreover have "re_findall_digits b = []" "re_findall_digits [] = []"
        using nd by (simp_all add: findall_no_digits)
      ultimately show ?thesis by simp
    next
      case False
      then have f1: "takeWhile is_digit (t @ b) = takeWhile is_digit t"
        and f2: "dropWhile is_digit (t @ b) = dropWhile is_digit t @ b"
        by (auto simp add: takeWhile_append dropWhile_append)
      show ?thesis
        using findall_Cons [OF dws] findall_Cons [OF Cons] dig
        by (simp add: f1 f2 ih)
    qed
  qed
qed

lemma findall_rstrip:
  "re_findall_digits (rev (dropWhile is_space (rev s))) = re_findall_digits s"
proof -
  have "s = rev (dropWhile is_space (rev s)) @ rev (takeWhile is_space (rev s))"
    by (metis rev_append rev_rev_ident takeWhile_dropWhile_id)
  moreover have "\<forall>c\<in>set (rev (takeWhile is_space (rev s))). \<not> is_digit c"
    by (auto dest: set_takeWhileD simp: space_not_digit)
  ultimately show ?thesis
    by (metis findall_append_no_digits)
qed

lemma findall_strip_lower:
  "re_findall_digits (str_strip (str_lower msg)) = re_findall_digits msg"
  by (simp add: str_strip_def str_lower_def findall_rstrip findall_lstrip findall_lower)

lemma findall_first_run:
  assumes "\<forall>c\<in>set pre. \<not> is_digit c" and "ds \<noteq> []" and "\<forall>c\<in>set ds. is_digit c"
    and "post = [] \<or> \<not> is_digit (hd post)"
  shows "\<exists>ns. re_findall_digits (pre @ ds @ post) = ds # ns"
proof -
  obtain d t where ds: "ds = d # t" using assms(2) by (cases ds) auto
  have "dropWhile (\<lambda>c. \<not> is_digit c) (pre @ ds @ post) = d # (t @ post)"
    using assms(1,3) by (simp add: dropWhile_append ds)
  moreover have "takeWhile is_digit (d # (t @ post)) = ds"
    using assms(3,4) by (cases post) (auto simp add: ds takeWhile_append)
  ultimately show ?thesis
    using findall_Cons by metis
qed

section \<open>Updates and the evaluator\<close>

lemma update_user_state_eq:
  "update_user_state dm p state data =
     (snd (get_user_state dm p))
       \<lparr>user_states := (user_states (snd (get_user_state dm p)))
            (p \<mapsto> applied_update (fst (get_user_state dm p)) state data),
        store := store_set (store dm) p (applied_update (fst (get_user_state dm p)) state data)\<rparr>"
  by (simp add: update_user_state_def applied_update_def case_prod_beta Let_def)

lemma update_user_state_resolved:
  "update_user_state (snd (get_user_state dm p)) p state data = update_user_state dm p state data"
  by (simp add: update_user_state_def get_user_state_again)

lemma get_user_state_hit:
  "user_states dm p = Some u \<Longrightarrow> get_user_state dm p = (u, dm)"
  by (simp add: get_user_state_def)

lemma update_user_state_record:
  "fst (get_user_state (update_user_state dm p state data) p)
     = applied_update (fst (get_user_state dm p)) state data"
  by (simp add: update_user_state_eq get_user_state_hit)

lemma store_get_set:
  "store_get (store_set cs p state) p =
     (case next_outcome (next_writes cs) of
        Written \<Rightarrow> Some state
      | Refused \<Rightarrow> store_get cs p
      | Torn \<Rightarrow> None)"
  by (simp add: store_get_def store_set_def read_all_def write_all_def
      split: write_outcome.splits)

lemma update_user_state_stored:
  "store_get (store (update_user_state dm p state data)) p =
     (case next_outcome (next_writes (store dm)) of
        Written \<Rightarrow> Some (applied_update (fst (get_user_state dm p)) state data)
      | Refused \<Rightarrow> store_get (store dm) p
      | Torn \<Rightarrow> None)"
  by (simp add: update_user_state_eq store_get_set)

lemma update_user_state_flow [simp]:
  "dialogue_data (update_user_state dm p state data) = dialogue_data dm"
  by (simp add: update_user_state_eq)

lemma handle_eligibility_int:
  assumes "get_or (conversation_data (fst (get_user_state dm p)) ''monthly_income'') (SInt 0) = SInt i"
  shows "handle_eligibility dm p =
     (Inr (if verdict (eligibility_rules dm) (conversation_data (fst (get_user_state dm p))) i
           then str_replace ''{calendly_link}''
                  (get_or (calendly_link (dialogue_data dm)) ''https://calendly.com'')
                  (branch_message_template (on_qualified (states_get dm ''EVALUATE_ELIGIBILITY'')) [])
           else branch_message (on_not_qualified (states_get dm ''EVALUATE_ELIGIBILITY''))
                  ''Thank you for your time.'', True),
      update_user_state
        ((snd (get_user_state dm p))
           \<lparr>user_states := (user_states (snd (get_user_state dm p)))
              (p \<mapsto> (fst (get_user_state dm p))
                 \<lparr>outcome := Some (if verdict (eligibility_rules dm)
                                         (conversation_data (fst (get_user_state dm p))) i
                                   then ''qualified'' else ''disqualified'')\<rparr>)\<rparr>)
        p ''END'' None)"
  using assms
  by (simp add: handle_eligibility_def case_prod_beta Let_def verdict_def eligibility_rules_def)

lemma handle_eligibility_str:
  assumes "get_or (conversation_data (fst (get_user_state dm p)) ''monthly_income'') (SInt 0) = SStr x"
  shows "handle_eligibility dm p = (Inl TypeError, snd (get_user_state dm p))"
  using assms
  by (simp add: handle_eligibility_def case_prod_beta Let_def)

lemma handle_eligibility_record:
  assumes "get_or (conversation_data (fst (get_user_state dm p)) ''monthly_income'') (SInt 0) = SInt i"
  shows "fst (get_user_state (snd (handle_eligibility dm p)) p) =
           (fst (get_user_state dm p))
             \<lparr>current_state := ''END'',
              message_count := message_count (fst (get_user_state dm p)) + 1,
              outcome := Some (if verdict (eligibility_rules dm)
                                    (conversation_data (fst (get_user_state dm p))) i
                               then ''qualified'' else ''disqualified'')\<rparr>"
  by (simp add: handle_eligibility_int [OF assms] update_user_state_record get_user_state_hit
      applied_update_def)

lemma handle_eligibility_stored:
  assumes "get_or (conversation_data (fst (get_user_state dm p)) ''monthly_income'') (SInt 0) = SInt i"
  shows "store_get (store (snd (handle_eligibility dm p))) p =
           (case next_outcome (next_writes (store dm)) of
              Written \<Rightarrow> Some (fst (get_user_state (snd (handle_eligibility dm p)) p))
            | Refused \<Rightarrow> store_get (store dm) p
            | Torn \<Rightarrow> None)"
  by (simp add: handle_eligibility_int [OF assms] update_user_state_record
      update_user_state_stored get_user_state_hit split: write_outcome.splits)

lemma eligibility_rules_update [simp]:
  "eligibility_rules (update_user_state dm p state data) = eligibility_rules dm"
  by (simp add: eligibility_rules_def states_get_def)

lemma income_text_or_int:
  "(income_is_text data \<and> (\<exists>x. get_or (data ''monthly_income'') (SInt 0) = SStr x))
   \<or> (\<not> income_is_text data \<and> (\<exists>i. get_or (data ''monthly_income'') (SInt 0) = SInt i))"
  by (auto simp: income_is_text_def get_or_def split: option.splits scalar.splits)

lemma verdict_with_defaults:
  assumes "get_or (data ''monthly_income'') (SInt 0) = SInt i"
  shows "verdict q data i = qualifies_with_defaults q data"
  using assms
  by (auto simp: verdict_def qualifies_with_defaults_def scalar_in_def get_or_def
           split: option.splits scalar.splits)

lemma defaults_refused:
  assumes "data ''employment_type'' \<noteq> None \<or> [] \<notin> set (get_or (r_employment_type q) [])"
    and "data ''monthly_income'' \<noteq> None \<or> 0 < get_or (r_monthly_income_minimum q) 5000"
    and "data ''residency_status'' \<noteq> None \<or> [] \<notin> set (get_or (r_residency_status q) [])"
  shows "qualifies_with_defaults q data = spec_qualifies q data"
  using assms
  by (auto simp: qualifies_with_defaults_def spec_qualifies_def get_or_def
           split: option.splits scalar.splits)

lemma eligibility_text:
  assumes "income_is_text (conversation_data (fst (get_user_state dm p)))"
  shows "handle_eligibility dm p = (Inl TypeError, snd (get_user_state dm p))"
proof -
  from assms income_text_or_int [of "conversation_data (fst (get_user_state dm p))"]
  obtain x where "get_or (conversation_data (fst (get_user_state dm p)) ''monthly_income'') (SInt 0) = SStr x"
    by auto
  then show ?thesis by (rule handle_eligibility_str)
qed

lemma eligibility_outcome:
  assumes "\<not> income_is_text (conversation_data (fst (get_user_state dm p)))"
  shows "fst (handle_eligibility dm p) =
           Inr (if qualifies_with_defaults (eligibility_rules dm)
                     (conversation_data (fst (get_user_state dm p)))
                then str_replace ''{calendly_link}''
                       (get_or (calendly_link (dialogue_data dm)) ''https://calendly.com'')
                       (branch_message_template
                          (on_qualified (states_get dm ''EVALUATE_ELIGIBILITY'')) [])
                else branch_message (on_not_qualified (states_get dm ''EVALUATE_ELIGIBILITY''))
                       ''Thank you for your time.'', True)"
    and "fst (get_user_state (snd (handle_eligibility dm p)) p) =
           (fst (get_user_state dm p))
             \<lparr>current_state := ''END'',
              message_count := message_count (fst (get_user_state dm p)) + 1,
              outcome := Some (if qualifies_with_defaults (eligibility_rules dm)
                                    (conversation_data (fst (get_user_state dm p)))
                               then ''qualified'' else ''disqualified'')\<rparr>"
    and "store_get (store (snd (handle_eligibility dm p))) p =
           (case next_outcome (next_writes (store dm)) of
              Written \<Rightarrow> Some (fst (get_user_state (snd (handle_eligibility dm p)) p))
            | Refused \<Rightarrow> store_get (store dm) p
            | Torn \<Rightarrow> None)"
proof -
  from assms income_text_or_int [of "conversation_data (fst (get_user_state dm p))"]
  obtain i where i: "get_or (conversation_data (fst (get_user_state dm p)) ''monthly_income'') (SInt 0) = SInt i"
    by auto
  have v: "verdict (eligibility_rules dm) (conversation_data (fst (get_user_state dm p))) i
             = qualifies_with_defaults (eligibility_rules dm)
                 (conversation_data (fst (get_user_state dm p)))"
    using i by (rule verdict_with_defaults)
  show "fst (handle_eligibility dm p) =
           Inr (if qualifies_with_defaults (eligibility_rules dm)
                     (conversation_data (fst (get_user_state dm p)))
                then str_replace ''{calendly_link}''
                       (get_or (calendly_link (dialogue_data dm)) ''https://calendly.com'')
                       (branch_message_template
                          (on_qualified (states_get dm ''EVALUATE_ELIGIBILITY'')) [])
                else branch_message (on_not_qualified (states_get dm ''EVALUATE_ELIGIBILITY''))
                       ''Thank you for your time.'', True)"
    by (simp add: handle_eligibility_int [OF i] v)
  show "fst (get_user_state (snd (handle_eligibility dm p)) p) =
           (fst (get_user_state dm p))
             \<lparr>current_state := ''END'',
              message_count := message_count (fst (get_user_state dm p)) + 1,
              outcome := Some (if qualifies_with_defaults (eligibility_rules dm)
                                    (conversation_data (fst (get_user_state dm p)))
                               then ''qualified'' else ''disqualified'')\<rparr>"
    by (simp add: handle_eligibility_record [OF i] v)
  show "store_get (store (snd (handle_eligibility dm p))) p =
           (case next_outcome (next_writes (store dm)) of
              Written \<Rightarrow> Some (fst (get_user_state (snd (handle_eligibility dm p)) p))
            | Refused \<Rightarrow> store_get (store dm) p
            | Torn \<Rightarrow> None)"
    by (rule handle_eligibility_stored [OF i])
qed

section \<open>JSON text: reading back what was written\<close>

lemma hex_value_hex_digit: "n < 16 \<Longrightarrow> hex_value (hex_digit n) = Some n"
proof -
  have "list_all (\<lambda>k. hex_value (hex_digit k) = Some k) [0..<16]"
    by code_simp
  moreover assume "n < 16"
  ultimately show ?thesis by (simp add: list_all_iff)
qed

lemma decode_control:
  assumes "(of_char c :: nat) < 32"
  shows "decode_hex4 [CHR ''0'', CHR ''0'', hex_digit ((of_char c :: nat) div 16),
                      hex_digit ((of_char c :: nat) mod 16)] = Some c"
proof -
  let ?n = "of_char c :: nat"
  have z: "hex_value (CHR ''0'') = Some 0" by (simp add: hex_value_def)
  have h: "hex_value (hex_digit (?n div 16)) = Some (?n div 16)"
          "hex_value (hex_digit (?n mod 16)) = Some (?n mod 16)"
    using assms by (simp_all add: hex_value_hex_digit)
  have "char_of (16 * (?n div 16) + ?n mod 16) = c" by simp
  then show ?thesis by (simp add: decode_hex4_def z h)
qed

lemma scan_escaped_char:
  "scan_string (escape_char c @ s) = map_option (\<lambda>(t, r). (c # t, r)) (scan_string s)"
proof (cases "c = CHR 0x22 \<or> c = CHR 0x5C \<or> c = CHR 0x0A \<or> c = CHR 0x0D \<or> c = CHR 0x09
              \<or> c = CHR 0x08 \<or> c = CHR 0x0C")
  case True
  then show ?thesis
    by (auto simp: escape_char_def unescape_def)
next
  case False
  show ?thesis
  proof (cases "(of_char c :: nat) < 32")
    case True
    with False show ?thesis
      by (simp add: escape_char_def decode_control)
  next
    case ge: False
    with False show ?thesis
      by (simp add: escape_char_def)
  qed
qed

lemma scan_escaped:
  "scan_string (concat (map escape_char s) @ CHR 0x22 # rest) = Some (s, rest)"
  by (induction s) (simp_all add: scan_escaped_char)

lemma quote_scan:
  "quote s @ rest = CHR 0x22 # (concat (map escape_char s) @ CHR 0x22 # rest)"
  by (simp add: quote_def)

lemma digit_char:
  assumes "d < 10"
  shows "is_digit (''0123456789'' ! d)" and "digit_value (''0123456789'' ! d) = int d"
    and "(''0123456789'' ! d = CHR ''0'') = (d = 0)" and "''0123456789'' ! d \<noteq> CHR ''-''"
proof -
  have "list_all (\<lambda>k. is_digit (''0123456789'' ! k) \<and> digit_value (''0123456789'' ! k) = int k
          \<and> (''0123456789'' ! k = CHR ''0'') = (k = 0) \<and> ''0123456789'' ! k \<noteq> CHR ''-'') [0..<10]"
    by code_simp
  then have "\<forall>k\<in>set [0..<10]. is_digit (''0123456789'' ! k) \<and> digit_value (''0123456789'' ! k) = int k
          \<and> (''0123456789'' ! k = CHR ''0'') = (k = 0) \<and> ''0123456789'' ! k \<noteq> CHR ''-''"
    by (simp only: list_all_iff)
  with assms show "is_digit (''0123456789'' ! d)" and "digit_value (''0123456789'' ! d) = int d"
    and "(''0123456789'' ! d = CHR ''0'') = (d = 0)" and "''0123456789'' ! d \<noteq> CHR ''-''"
    by simp_all
qed

lemma int_of_str_snoc: "int_of_str (ds @ [d]) = 10 * int_of_str ds + digit_value d"
  by (simp add: int_of_str_def)

lemma show_nat_props:
  "show_nat n \<noteq> [] \<and> (\<forall>c\<in>set (show_nat n). is_digit c) \<and> int_of_str (show_nat n) = int n
   \<and> (hd (show_nat n) = CHR ''0'') = (n = 0)"
proof (induction n rule: show_nat.induct)
  case (1 n)
  show ?case
  proof (cases "n < 10")
    case True
    then show ?thesis
      by (subst (1 2 3 4) show_nat.simps) (simp add: digit_char int_of_str_def)
  next
    case False
    then have ih: "show_nat (n div 10) \<noteq> []" "\<forall>c\<in>set (show_nat (n div 10)). is_digit c"
      "int_of_str (show_nat (n div 10)) = int (n div 10)"
      "(hd (show_nat (n div 10)) = CHR ''0'') = (n div 10 = 0)"
      using "1.IH" by simp_all
    have m: "n mod 10 < 10" by simp
    have eq: "show_nat n = show_nat (n div 10) @ [''0123456789'' ! (n mod 10)]"
      using False by (subst show_nat.simps) simp
    have nz: "n div 10 \<noteq> 0" using False by simp
    have ar: "10 * int (n div 10) + int (n mod 10) = int n"
      by (metis mult_div_mod_eq of_nat_add of_nat_mult of_nat_numeral)
    show ?thesis
      using ih nz False
      by (simp add: eq int_of_str_snoc digit_char [OF m] ar del: nth_Cons_numeral)
  qed
qed

lemma scan_nat_show:
  assumes "rest = [] \<or> \<not> is_digit (hd rest)"
  shows "scan_nat (show_nat n @ rest) = Some (int n, rest)"
proof -
  from show_nat_props [of n] obtain c cs where s: "show_nat n = c # cs"
    by (cases "show_nat n") auto
  have dg: "\<forall>x\<in>set (show_nat n). is_digit x" and v: "int_of_str (show_nat n) = int n"
    and z: "(hd (show_nat n) = CHR ''0'') = (n = 0)"
    using show_nat_props [of n] by simp_all
  show ?thesis
  proof (cases "n = 0")
    case True
    then have "show_nat n = ''0''" by (subst show_nat.simps) simp
    then show ?thesis using True by (simp add: scan_nat_def)
  next
    case False
    then have c0: "c \<noteq> CHR ''0''" using z s by simp
    have cd: "is_digit c" using dg s by simp
    have tw: "takeWhile is_digit (show_nat n @ rest) = show_nat n"
      using dg assms by (cases rest) (auto simp: takeWhile_append)
    have dw: "dropWhile is_digit (show_nat n @ rest) = rest"
      using dg assms by (cases rest) (auto simp: dropWhile_append)
    have "scan_nat (show_nat n @ rest)
            = Some (int_of_str (takeWhile is_digit (show_nat n @ rest)),
                    dropWhile is_digit (show_nat n @ rest))"
      using c0 cd by (simp add: scan_nat_def s)
    then show ?thesis by (simp add: tw dw v)
  qed
qed

lemma show_nat_not_minus: "hd (show_nat n) \<noteq> CHR ''-''"
proof -
  have "show_nat n \<noteq> []" "\<forall>c\<in>set (show_nat n). is_digit c"
    using show_nat_props [of n] by simp_all
  then have "is_digit (hd (show_nat n))" by (cases "show_nat n") auto
  then show ?thesis by (auto simp: is_digit_def)
qed

lemma scan_int_show:
  assumes "rest = [] \<or> \<not> is_digit (hd rest)"
  shows "scan_int (show_int i @ rest) = Some (i, rest)"
proof (cases "i < 0")
  case True
  then show ?thesis
    by (simp add: scan_int_def show_int_def scan_nat_show [OF assms])
next
  case False
  obtain c cs where s: "show_nat (nat i) = c # cs"
    using show_nat_props [of "nat i"] by (cases "show_nat (nat i)") auto
  have "c \<noteq> CHR ''-''" using show_nat_not_minus [of "nat i"] s by simp
  then have "scan_int (show_nat (nat i) @ rest) = scan_nat (show_nat (nat i) @ rest)"
    by (simp add: scan_int_def s)
  then show ?thesis
    using False by (simp add: show_int_def scan_nat_show [OF assms])
qed

lemma members_induct [case_names MNil MCons]:
  fixes m :: members
  assumes "P MNil" and "\<And>k v rest. P rest \<Longrightarrow> P (MCons k v rest)"
  shows "P m"
proof -
  have "True" and "P m" for j :: json
    by (induction j and m) (simp_all add: assms)
  then show ?thesis by simp
qed

lemma m_update_fresh: "k \<notin> set (m_keys acc) \<Longrightarrow> m_update k v acc = m_app acc (MCons k v MNil)"
  by (induction acc rule: members_induct) auto

lemma m_app_assoc: "m_app (m_app a b) c = m_app a (m_app b c)"
  by (induction a rule: members_induct) auto

lemma m_keys_app: "m_keys (m_app a b) = m_keys a @ m_keys b"
  by (induction a rule: members_induct) auto

lemma skip_ws_newline_indent: "skip_ws (newline_indent n @ s) = skip_ws s"
  by (simp add: skip_ws_def newline_indent_def is_json_ws_def dropWhile_append)

lemma skip_ws_start: "s \<noteq> [] \<Longrightarrow> \<not> is_json_ws (hd s) \<Longrightarrow> skip_ws (s @ r) = s @ r"
  by (cases s) (simp_all add: skip_ws_def)

lemma skip_ws_char: "\<not> is_json_ws c \<Longrightarrow> skip_ws (c # r) = c # r"
  by (simp add: skip_ws_def)

lemma show_int_start:
  "show_int i \<noteq> [] \<and> (hd (show_int i) = CHR ''-'' \<or> is_digit (hd (show_int i)))"
proof -
  have "show_nat n \<noteq> [] \<and> is_digit (hd (show_nat n))" for n
    using show_nat_props [of n] by (cases "show_nat n") auto
  then show ?thesis by (simp add: show_int_def)
qed

lemma digit_plain:
  "is_digit c \<Longrightarrow> \<not> is_json_ws c \<and> c \<noteq> CHR 0x22 \<and> c \<noteq> CHR ''{'' \<and> c \<noteq> CHR ''n''
     \<and> c \<noteq> CHR ''t'' \<and> c \<noteq> CHR ''f''"
  by (auto simp: is_digit_def is_json_ws_def)

lemma dumps_start:
  "dumps j n \<noteq> [] \<and> \<not> is_json_ws (hd (dumps j n))"
proof (cases j)
  case (JInt i)
  then show ?thesis
    using show_int_start [of i] digit_plain [of "hd (show_int i)"]
    by (auto simp: is_json_ws_def)
qed (auto simp: is_json_ws_def quote_def)

lemma dumps_members_start:
  "m \<noteq> MNil \<Longrightarrow> \<exists>t. dumps_members m n = CHR 0x22 # t"
  by (cases m) (auto simp: quote_def)

lemma parse_value_atoms:
  "parse_value (Suc n) (''null'' @ rest) = Some (JNull, rest)"
  "parse_value (Suc n) (''true'' @ rest) = Some (JBool True, rest)"
  "parse_value (Suc n) (''false'' @ rest) = Some (JBool False, rest)"
  by (simp_all add: parse_value.simps)

lemma parse_value_string:
  "parse_value (Suc n) (quote s @ rest) = Some (JStr s, rest)"
  by (simp add: parse_value.simps quote_scan scan_escaped)

lemma parse_value_int:
  assumes "rest = [] \<or> \<not> is_digit (hd rest)"
  shows "parse_value (Suc n) (show_int i @ rest) = Some (JInt i, rest)"
proof -
  obtain c cs where s: "show_int i = c # cs"
    using show_int_start [of i] by (cases "show_int i") auto
  have c: "c = CHR ''-'' \<or> is_digit c" using show_int_start [of i] s by simp
  then have ne: "c \<noteq> CHR 0x22" "c \<noteq> CHR ''{''" "c \<noteq> CHR ''n''" "c \<noteq> CHR ''t''" "c \<noteq> CHR ''f''"
    using digit_plain [of c] by auto
  have "parse_value (Suc n) ((c # cs) @ rest) = map_option (\<lambda>(i, r). (JInt i, r)) (scan_int ((c # cs) @ rest))"
    using ne by (simp add: parse_value.simps)
  then show ?thesis
    using scan_int_show [OF assms, of i] by (simp add: s)
qed

lemma ok_after_closing: "\<not> is_digit (hd (closing n rest))" "\<not> is_digit (hd (CHR '','' # s))"
  by (simp_all add: closing_def newline_indent_def is_digit_def)

lemma roundtrip_fuel:
  fixes j :: json and m :: members
  shows "wf_json j \<Longrightarrow> fuel j \<le> n \<Longrightarrow> rest = [] \<or> \<not> is_digit (hd rest) \<Longrightarrow>
           parse_value n (dumps j lvl @ rest) = Some (j, rest)"
    and "wf_members m \<Longrightarrow> m \<noteq> MNil \<Longrightarrow> fuel_members m \<le> n \<Longrightarrow>
           set (m_keys acc) \<inter> set (m_keys m) = {} \<Longrightarrow>
           parse_members n acc (tl (dumps_members m lvl) @ closing lvl' rest)
             = Some (m_app acc m, rest)"
proof (induction j and m arbitrary: n lvl rest and n lvl lvl' rest acc)
  case JNull
  then obtain n' where "n = Suc n'" by (cases n) auto
  then show ?case using parse_value_atoms(1) [of n' rest] by simp
next
  case (JBool b)
  then obtain n' where "n = Suc n'" by (cases n) auto
  then show ?case
    using parse_value_atoms(2) [of n' rest] parse_value_atoms(3) [of n' rest] by simp
next
  case (JInt i)
  then obtain n' where "n = Suc n'" by (cases n) auto
  then show ?case using JInt.prems(3) by (simp add: parse_value_int)
next
  case (JStr s)
  then obtain n' where "n = Suc n'" by (cases n) auto
  then show ?case by (simp add: parse_value_string)
next
  case (JObj m)
  then obtain n' where n: "n = Suc n'" and f: "fuel_members m \<le> n'" by (cases n) auto
  show ?case
  proof (cases "m = MNil")
    case True
    then show ?thesis by (simp add: n parse_value.simps skip_ws_def is_json_ws_def)
  next
    case False
    obtain t where t: "dumps_members m (Suc lvl) = CHR 0x22 # t"
      using dumps_members_start [OF False] by blast
    have sk: "skip_ws (newline_indent (Suc lvl) @ dumps_members m (Suc lvl) @ closing lvl rest)
                = CHR 0x22 # t @ closing lvl rest"
      by (simp add: skip_ws_newline_indent t skip_ws_char is_json_ws_def)
    have pm: "parse_members n' MNil (t @ closing lvl rest) = Some (m, rest)"
      using JObj.IH [of n' MNil "Suc lvl" lvl rest] JObj.prems(1) False f
      by (simp add: t)
    have "dumps (JObj m) lvl @ rest
            = CHR ''{'' # (newline_indent (Suc lvl) @ dumps_members m (Suc lvl) @ closing lvl rest)"
      using False by (simp add: closing_def)
    then show ?thesis
      by (simp add: n parse_value.simps sk pm)
  qed
next
  case MNil
  then show ?case by simp
next
  case (MCons k v r)
  then obtain n' where n: "n = Suc n'" and fv: "fuel v \<le> n'" and fr: "fuel_members r \<le> n'"
    by (cases n) auto
  have wf: "k \<notin> set (m_keys r)" "wf_json v" "wf_members r"
    using MCons.prems(1) by simp_all
  have fresh: "k \<notin> set (m_keys acc)" using MCons.prems(4) by auto
  define tailtext where "tailtext =
    (if r = MNil then [] else CHR '','' # newline_indent lvl @ dumps_members r lvl) @ closing lvl' rest"
  have ok: "tailtext = [] \<or> \<not> is_digit (hd tailtext)"
    by (simp add: tailtext_def closing_def newline_indent_def is_digit_def)
  have tx: "tl (dumps_members (MCons k v r) lvl) @ closing lvl' rest
               = concat (map escape_char k) @ CHR 0x22 # (CHR '':'' # CHR '' '' # dumps v lvl @ tailtext)"
    by (simp add: quote_def tailtext_def)
  have s1: "scan_string (concat (map escape_char k) @ CHR 0x22 # (CHR '':'' # CHR '' '' # dumps v lvl @ tailtext))
              = Some (k, CHR '':'' # CHR '' '' # dumps v lvl @ tailtext)"
    by (rule scan_escaped)
  have s2: "skip_ws (CHR '':'' # CHR '' '' # dumps v lvl @ tailtext)
              = CHR '':'' # CHR '' '' # dumps v lvl @ tailtext"
    by (simp add: skip_ws_char is_json_ws_def)
  obtain c cs where dv: "dumps v lvl = c # cs" and cw: "\<not> is_json_ws c"
    using dumps_start [of v lvl] by (cases "dumps v lvl") auto
  have "skip_ws (CHR '' '' # (c # cs) @ tailtext) = (c # cs) @ tailtext"
    using cw by (simp add: skip_ws_def is_json_ws_def)
  then have s3: "skip_ws (CHR '' '' # dumps v lvl @ tailtext) = dumps v lvl @ tailtext"
    by (simp only: dv)
  have pv: "parse_value n' (dumps v lvl @ tailtext) = Some (v, tailtext)"
    using MCons.IH(1) [OF wf(2) fv ok] .
  have step: "parse_members (Suc n') acc (tl (dumps_members (MCons k v r) lvl) @ closing lvl' rest)
      = (case skip_ws tailtext of
           [] \<Rightarrow> None
         | d # r4 \<Rightarrow>
             if d = CHR ''}'' then Some (m_update k v acc, r4)
             else if d = CHR '','' then
               (case skip_ws r4 of
                  [] \<Rightarrow> None
                | e # r5 \<Rightarrow>
                    if e = CHR 0x22 then parse_members n' (m_update k v acc) r5 else None)
             else None)"
    by (subst tx) (simp add: parse_members.simps s1 s2 s3 pv)
  show ?case
  proof (cases "r = MNil")
    case True
    have s4: "skip_ws tailtext = CHR ''}'' # rest"
      using True by (simp add: tailtext_def closing_def skip_ws_newline_indent skip_ws_char is_json_ws_def)
    show ?thesis
      unfolding n step s4 using True fresh
      by (simp add: m_update_fresh)
  next
    case False
    obtain t where t: "dumps_members r lvl = CHR 0x22 # t"
      using dumps_members_start [OF False] by blast
    have s4: "skip_ws tailtext = CHR '','' # newline_indent lvl @ dumps_members r lvl @ closing lvl' rest"
      using False by (simp add: tailtext_def skip_ws_char is_json_ws_def)
    have s5: "skip_ws (newline_indent lvl @ dumps_members r lvl @ closing lvl' rest)
                = CHR 0x22 # t @ closing lvl' rest"
      by (simp add: skip_ws_newline_indent t skip_ws_char is_json_ws_def)
    have disj: "set (m_keys (m_update k v acc)) \<inter> set (m_keys r) = {}"
      using MCons.prems(4) wf(1) fresh by (auto simp: m_update_fresh m_keys_app)
    have pm: "parse_members n' (m_update k v acc) (t @ closing lvl' rest)
                = Some (m_app (m_update k v acc) r, rest)"
      using MCons.IH(2) [OF wf(3) False fr disj, of lvl lvl' rest] by (simp add: t)
    have "m_app (m_update k v acc) r = m_app acc (MCons k v r)"
      using fresh by (simp add: m_update_fresh m_app_assoc)
    then show ?thesis
      unfolding n step s4 by (simp add: s5 pm)
  qed
qed

lemma fuel_bound:
  fixes j :: json and m :: members
  shows "fuel j \<le> length (dumps j lvl)" and "fuel_members m \<le> length (dumps_members m lvl)"
proof (induction j and m arbitrary: lvl and lvl)
  case JNull
  show ?case by simp
next
  case (JBool b)
  show ?case by simp
next
  case (JInt i)
  show ?case using show_int_start [of i] by (cases "show_int i") auto
next
  case (JStr s)
  show ?case by (simp add: quote_def)
next
  case (JObj m)
  have "fuel_members m \<le> length (dumps_members m (Suc lvl))" by (rule JObj.IH)
  then show ?case by (cases "m = MNil") simp_all
next
  case MNil
  show ?case by simp
next
  case (MCons k v r)
  have "fuel v \<le> length (dumps v lvl)" "fuel_members r \<le> length (dumps_members r lvl)"
    by (rule MCons.IH)+
  then show ?case by (cases "r = MNil") (simp_all add: quote_def)
qed

lemma loads_dumps: "wf_json j \<Longrightarrow> json_loads (json_dumps j) = Some j"
proof -
  assume wf: "wf_json j"
  have sk: "skip_ws (dumps j 0) = dumps j 0"
    using dumps_start [of j 0] skip_ws_start [of "dumps j 0" "[]"] by simp
  have "parse_value (Suc (length (dumps j 0))) (dumps j 0 @ []) = Some (j, [])"
    using fuel_bound(1) [of j 0] by (intro roundtrip_fuel(1) [OF wf]) auto
  then have pv: "parse_value (Suc (length (dumps j 0))) (dumps j 0) = Some (j, [])"
    by (simp only: append_Nil2)
  have nil: "skip_ws [] = []" by (simp add: skip_ws_def)
  show ?thesis
    by (simp add: json_loads_def json_dumps_def sk pv nil)
qed

section \<open>The conversation store\<close>

lemma m_keys_update: "set (m_keys (m_update k v m)) = insert k (set (m_keys m))"
  by (induction m rule: members_induct) auto

lemma wf_m_update: "wf_members m \<Longrightarrow> wf_json v \<Longrightarrow> wf_members (m_update k v m)"
  by (induction m rule: members_induct) (auto simp: m_keys_update)

lemma m_lookup_update: "m_lookup (m_update k v m) q = (if q = k then Some v else m_lookup m q)"
  by (induction m rule: members_induct) auto

lemma parse_wf_aux:
  "(\<forall>s v r. parse_value n s = Some (v, r) \<longrightarrow> wf_json v)
   \<and> (\<forall>acc s m r. wf_members acc \<longrightarrow> parse_members n acc s = Some (m, r) \<longrightarrow> wf_members m)"
proof (induction n)
  case 0
  show ?case by (simp add: parse_value.simps parse_members.simps)
next
  case (Suc n)
  from Suc have ih_v: "\<And>s v r. parse_value n s = Some (v, r) \<Longrightarrow> wf_json v"
    and ih_m: "\<And>acc s m r. wf_members acc \<Longrightarrow> parse_members n acc s = Some (m, r)
                 \<Longrightarrow> wf_members m"
    by blast+
  have ih0: "\<And>s m r. parse_members n MNil s = Some (m, r) \<Longrightarrow> wf_members m"
    using ih_m [of MNil] by simp
  have v: "wf_json v" if "parse_value (Suc n) s = Some (v, r)" for s v r
    using that
    by (auto simp: parse_value.simps split: list.splits if_splits dest: ih0)
  have ih2: "wf_members m"
    if "wf_members acc" "parse_value n s' = Some (x, r')"
       "parse_members n (m_update k x acc) s = Some (m, r)" for acc s' x r' k s m r
    using that by (blast intro: ih_m wf_m_update ih_v)
  have m: "wf_members m" if "wf_members acc" "parse_members (Suc n) acc s = Some (m, r)"
    for acc s m r
    using that
    by (auto simp: parse_members.simps wf_m_update
             split: list.splits if_splits option.splits prod.splits
             dest: ih_v ih2)
  show ?case using v m by blast
qed

lemma loads_wf: "json_loads t = Some v \<Longrightarrow> wf_json v"
  using parse_wf_aux [of "Suc (length t)"]
  by (auto simp: json_loads_def split: option.splits prod.splits if_splits)

lemma read_all_text_wf: "wf_json (read_all_text d)"
  by (auto simp: read_all_text_def loads_wf split: option.splits)


lemma m_keys_members_of: "m_keys (members_of kvs) = map fst kvs"
  by (induction kvs) auto

lemma wf_members_of: "distinct (map fst kvs) \<Longrightarrow> wf_members (members_of kvs)"
  by (induction kvs) (auto simp: m_keys_members_of json_of_scalar_def split: scalar.splits)

lemma wf_json_of_state:
  "distinct (map fst kvs) \<Longrightarrow> wf_json (json_of_state cs kvs mc rc oc)"
  by (simp add: json_of_state_def wf_members_of split: option.splits)

lemma m_lookup_members_of:
  "Option.bind (m_lookup (members_of kvs) k) scalar_of_json = map_of kvs k"
  by (induction kvs) (auto simp: json_of_scalar_def scalar_of_json_def split: scalar.splits)

lemma all_scalars_members_of: "all_scalars (members_of kvs)"
  by (induction kvs) (auto simp: json_of_scalar_def scalar_of_json_def split: scalar.splits)

lemma state_of_json_of_state:
  "state_of_json (json_of_state cs kvs mc rc oc) =
     Some \<lparr>current_state = cs, conversation_data = map_of kvs, message_count = mc,
           retry_count = rc, outcome = oc\<rparr>"
proof -
  have "answers_of (members_of kvs) = map_of kvs"
    by (rule ext) (simp add: answers_of_def m_lookup_members_of)
  then show ?thesis
    by (simp add: state_of_json_def json_of_state_def as_str_def as_int_def as_answers_def
        as_outcome_def all_scalars_members_of split: option.splits)
qed

lemma json_loads_empty: "json_loads [] = None"
  by (simp add: json_loads_def skip_ws_def parse_value.simps)

lemma read_all_text_written:
  assumes "wf_json v"
  shows "read_all_text (d\<lparr>file_text := Some (json_dumps v), disk_writes := ws\<rparr>) = v"
  by (simp add: read_all_text_def loads_dumps [OF assms])

lemma set_text_object:
  assumes "read_all_text d = JObj m"
  shows "set_text d p sj = Inr (write_all_text d (JObj (m_update p sj m)))"
  by (simp add: set_text_def assms)

lemma get_after_write:
  assumes "read_all_text d = JObj m" and "wf_json sj"
  shows "get_text (write_all_text d (JObj (m_update p sj m))) p =
           (case next_outcome (disk_writes d) of
              Written \<Rightarrow> Inr (Some sj)
            | Refused \<Rightarrow> get_text d p
            | Torn \<Rightarrow> Inr None)"
proof -
  have "wf_json (JObj m)" using read_all_text_wf [of d] assms(1) by simp
  then have wf: "wf_json (JObj (m_update p sj m))"
    using assms(2) by (simp add: wf_m_update)
  show ?thesis
  proof (cases "next_outcome (disk_writes d)")
    case Written
    then show ?thesis
      by (simp add: write_all_text_def get_text_def read_all_text_written [OF wf] m_lookup_update)
  next
    case Refused
    then show ?thesis
      by (simp add: write_all_text_def get_text_def read_all_text_def)
  next
    case Torn
    then show ?thesis
      by (simp add: write_all_text_def get_text_def read_all_text_def json_loads_empty)
  qed
qed

lemma parsed_view_object:
  assumes "read_all_text d = JObj m"
  shows "\<exists>cs. parsed_view d = Some cs
           \<and> read_all cs = (\<lambda>q. Option.bind (m_lookup m q) state_of_json)
           \<and> next_writes cs = disk_writes d"
  using assms
  by (auto simp: read_all_def parsed_view_def read_all_text_def
           split: option.splits json.splits)

lemma parsed_view_other:
  assumes "\<forall>m. read_all_text d \<noteq> JObj m"
  shows "parsed_view d = None"
  using assms
  by (auto simp: parsed_view_def read_all_text_def split: option.splits json.splits)

lemma parsed_view_after_write:
  assumes "read_all_text d = JObj m" and "wf_json sj" and "state_of_json sj = Some u"
    and "parsed_view d = Some cs"
  shows "parsed_view (write_all_text d (JObj (m_update p sj m))) = Some (store_set cs p u)"
proof -
  have "wf_json (JObj m)" using read_all_text_wf [of d] assms(1) by simp
  then have wf: "wf_json (JObj (m_update p sj m))"
    using assms(2) by (simp add: wf_m_update)
  have up: "(\<lambda>q. Option.bind (m_lookup (m_update p sj m) q) state_of_json)
              = (\<lambda>q. Option.bind (m_lookup m q) state_of_json)(p \<mapsto> u)"
    by (rule ext) (simp add: m_lookup_update assms(3))
  from parsed_view_object [OF assms(1)] assms(4)
  have ra: "read_all cs = (\<lambda>q. Option.bind (m_lookup m q) state_of_json)"
    and nw: "next_writes cs = disk_writes d"
    by simp_all
  show ?thesis
  proof (cases "next_outcome (disk_writes d)")
    case Written
    then show ?thesis
      by (simp add: store_set_def write_all_def nw ra up [symmetric])
         (simp add: parsed_view_def write_all_text_def loads_dumps [OF wf])
  next
    case Refused
    have "parsed_view (d\<lparr>disk_writes := tl (disk_writes d)\<rparr>)
            = map_option (\<lambda>c. c\<lparr>next_writes := tl (disk_writes d)\<rparr>) (parsed_view d)"
      by (simp add: parsed_view_def split: option.splits json.splits)
    then show ?thesis
      using Refused by (simp add: store_set_def write_all_def nw write_all_text_def assms(4))
  next
    case Torn
    then show ?thesis
      using assms(4)
      by (simp add: store_set_def write_all_def nw)
         (auto simp: parsed_view_def write_all_text_def json_loads_empty
               split: option.splits json.splits)
  qed
qed

text \<open>
  C8 as stated fails when the write fails. The file holds the empty dictionary and the
  environment refuses the next write: \<^verbatim>\<open>set\<close> swallows the error and leaves the
  file as it was, and \<^verbatim>\<open>get\<close> then returns nothing for the sender.
\<close>

theorem failed_write_loses_record:
  "set_text \<lparr>file_text = Some ''{}'', disk_writes = [Refused]\<rparr> ''+971500000012''
     (json_of_state ''QUESTION_1'' [] 1 0 None)
     = Inr \<lparr>file_text = Some ''{}'', disk_writes = []\<rparr>
   \<and> get_text \<lparr>file_text = Some ''{}'', disk_writes = []\<rparr> ''+971500000012'' = Inr None"
  by (simp add: set_text_def get_text_def read_all_text_def write_all_text_def next_outcome_def
      json_loads_def parse_value.simps skip_ws_def is_json_ws_def)

text \<open>
  C8, amended. For every conversation state (any current state, answers with distinct
  keys, counters and outcome) and every store file that is missing, does not parse, or
  holds a dictionary: \<^verbatim>\<open>set(sender, state)\<close> does not raise, and \<^verbatim>\<open>get(sender)\<close>
  afterwards returns the dictionary that was stored, which stands for the same record in
  every field, when the write succeeded; what the store held before when the write was
  refused; and nothing when the write was torn. The text written is the one
  \<^verbatim>\<open>json.dump\<close> produces and is read back by \<^verbatim>\<open>json.load\<close>; on the parsed form
  of the file the step is the engine's \<open>store_set\<close>. On a file that holds JSON other
  than an object, \<^verbatim>\<open>set\<close> raises \<^verbatim>\<open>TypeError\<close> and \<^verbatim>\<open>get\<close> raises
  \<^verbatim>\<open>AttributeError\<close>.
\<close>

theorem set_then_get_roundtrip:
  assumes "distinct (map fst kvs)"
  shows "(case read_all_text d of
            JObj m \<Rightarrow>
              (\<exists>d' cs. set_text d p (json_of_state cs_id kvs mc rc oc) = Inr d'
                 \<and> get_text d' p =
                     (case next_outcome (disk_writes d) of
                        Written \<Rightarrow> Inr (Some (json_of_state cs_id kvs mc rc oc))
                      | Refused \<Rightarrow> get_text d p
                      | Torn \<Rightarrow> Inr None)
                 \<and> parsed_view d = Some cs
                 \<and> parsed_view d' =
                     Some (store_set cs p
                       \<lparr>current_state = cs_id, conversation_data = map_of kvs,
                        message_count = mc, retry_count = rc, outcome = oc\<rparr>)
                 \<and> map_option (\<lambda>c. store_get c p) (parsed_view d') =
                     Some (case next_outcome (disk_writes d) of
                        Written \<Rightarrow>
                          Some \<lparr>current_state = cs_id, conversation_data = map_of kvs,
                                message_count = mc, retry_count = rc, outcome = oc\<rparr>
                      | Refused \<Rightarrow> store_get cs p
                      | Torn \<Rightarrow> None))
          | _ \<Rightarrow> set_text d p (json_of_state cs_id kvs mc rc oc) = Inl TypeError
                \<and> get_text d p = Inl AttributeError
                \<and> parsed_view d = None)
         \<and> state_of_json (json_of_state cs_id kvs mc rc oc) =
             Some \<lparr>current_state = cs_id, conversation_data = map_of kvs,
                   message_count = mc, retry_count = rc, outcome = oc\<rparr>"
proof -
  let ?sj = "json_of_state cs_id kvs mc rc oc"
  let ?u = "\<lparr>current_state = cs_id, conversation_data = map_of kvs,
             message_count = mc, retry_count = rc, outcome = oc\<rparr>"
  have wf: "wf_json ?sj" using assms by (rule wf_json_of_state)
  have dec: "state_of_json ?sj = Some ?u" by (rule state_of_json_of_state)
  have obj: "\<exists>d' cs. set_text d p ?sj = Inr d'
                 \<and> get_text d' p =
                     (case next_outcome (disk_writes d) of
                        Written \<Rightarrow> Inr (Some ?sj)
                      | Refused \<Rightarrow> get_text d p
                      | Torn \<Rightarrow> Inr None)
                 \<and> parsed_view d = Some cs
                 \<and> parsed_view d' = Some (store_set cs p ?u)
                 \<and> map_option (\<lambda>c. store_get c p) (parsed_view d') =
                     Some (case next_outcome (disk_writes d) of
                        Written \<Rightarrow> Some ?u
                      | Refused \<Rightarrow> store_get cs p
                      | Torn \<Rightarrow> None)"
    if m: "read_all_text d = JObj m" for m
  proof -
    let ?d' = "write_all_text d (JObj (m_update p ?sj m))"
    from parsed_view_object [OF m] obtain cs where cs: "parsed_view d = Some cs"
      and nw: "next_writes cs = disk_writes d"
      by blast
    have pv: "parsed_view ?d' = Some (store_set cs p ?u)"
      by (rule parsed_view_after_write [OF m wf dec cs])
    have "map_option (\<lambda>c. store_get c p) (parsed_view ?d') =
            Some (case next_outcome (disk_writes d) of
               Written \<Rightarrow> Some ?u
             | Refused \<Rightarrow> store_get cs p
             | Torn \<Rightarrow> None)"
      by (simp only: pv store_get_set nw option.map)
    then show ?thesis
      using set_text_object [OF m] get_after_write [OF m wf] pv cs by blast
  qed
  have other: "set_text d p ?sj = Inl TypeError \<and> get_text d p = Inl AttributeError
                 \<and> parsed_view d = None"
    if "\<forall>m. read_all_text d \<noteq> JObj m"
    using that parsed_view_other [OF that]
    by (cases "read_all_text d") (simp_all add: set_text_def get_text_def)
  show ?thesis
    using obj other dec by (cases "read_all_text d") simp_all
qed

theorem set_then_get_roundtrip_witness:
  "\<exists>d'. set_text \<lparr>file_text = Some ''{}'', disk_writes = []\<rparr> ''+971500000013''
           (json_of_state ''QUESTION_3''
              [(''employment_type'', SStr ''salaried''), (''monthly_income'', SInt 8000)] 5 0 None)
         = Inr d'
      \<and> get_text d' ''+971500000013'' =
          Inr (Some (json_of_state ''QUESTION_3''
              [(''employment_type'', SStr ''salaried''), (''monthly_income'', SInt 8000)] 5 0 None))
      \<and> map_option (\<lambda>c. store_get c ''+971500000013'') (parsed_view d') =
          Some (Some \<lparr>current_state = ''QUESTION_3'',
                conversation_data =
                  map_of [(''employment_type'', SStr ''salaried''), (''monthly_income'', SInt 8000)],
                message_count = 5, retry_count = 0, outcome = None\<rparr>)"
proof -
  let ?d = "\<lparr>file_text = Some ''{}'', disk_writes = []\<rparr>"
  have r: "read_all_text ?d = JObj MNil"
    by (simp add: read_all_text_def json_loads_def parse_value.simps skip_ws_def is_json_ws_def)
  have h: "distinct (map fst [(''employment_type'', SStr ''salaried''), (''monthly_income'', SInt 8000)])"
    by simp
  have o: "next_outcome (disk_writes ?d) = Written" by (simp add: next_outcome_def)
  show ?thesis
    using set_then_get_roundtrip [OF h, of ?d "''+971500000013''" "''QUESTION_3''" 5 0 None]
    unfolding r o by auto
qed

section \<open>The terminal state\<close>

text \<open>
  C3. When the record the manager resolves for a sender (from memory, else from the
  store) has current state \<^verbatim>\<open>END\<close>, \<^verbatim>\<open>process_message\<close> returns the fixed closing
  message with \<open>ended = True\<close> and raises nothing; the store file is unchanged, the
  sender's record is the same record afterwards (so the next call is in the same
  situation), and nothing but the read-through of that record into memory happened.
\<close>

theorem end_state_is_idempotent:
  assumes "current_state (fst (get_user_state dm phone_number)) = ''END''"
  shows "fst (process_message dm phone_number msg user_name) =
           Inr (''Thank you! Your conversation has ended. Feel free to start a new conversation anytime.'', True)
         \<and> store (snd (process_message dm phone_number msg user_name)) = store dm
         \<and> fst (get_user_state (snd (process_message dm phone_number msg user_name)) phone_number)
             = fst (get_user_state dm phone_number)
         \<and> snd (process_message dm phone_number msg user_name) = snd (get_user_state dm phone_number)"
proof -
  have "process_message dm phone_number msg user_name =
          (Inr (closing_message, True), snd (get_user_state dm phone_number))"
    using assms
    by (cases "get_user_state dm phone_number") (simp add: process_message_def Let_def)
  then show ?thesis
    by (simp add: closing_message_def get_user_state_again)
qed

theorem end_state_is_idempotent_witness:
  "fst (process_message
          (restarted_manager llm_on
             [''+971500000001'' \<mapsto> (user_at ''END'' Map.empty)\<lparr>outcome := Some ''qualified''\<rparr>])
          ''+971500000001'' ''hello again'' None) =
     Inr (''Thank you! Your conversation has ended. Feel free to start a new conversation anytime.'', True)
   \<and> store_get (store (snd (process_message
          (restarted_manager llm_on
             [''+971500000001'' \<mapsto> (user_at ''END'' Map.empty)\<lparr>outcome := Some ''qualified''\<rparr>])
          ''+971500000001'' ''hello again'' None))) ''+971500000001''
       = Some ((user_at ''END'' Map.empty)\<lparr>outcome := Some ''qualified''\<rparr>)"
  using end_state_is_idempotent
    [of "restarted_manager llm_on
           [''+971500000001'' \<mapsto> (user_at ''END'' Map.empty)\<lparr>outcome := Some ''qualified''\<rparr>]"
        "''+971500000001''" "''hello again''" None]
  by (simp add: get_user_state_def store_defs restarted_manager_def user_at_def)

section \<open>The unclear branch of the Yes/No gate\<close>

text \<open>
  C1. The claim says that \<^verbatim>\<open>process_message\<close> never raises, in particular not in the
  unclear branch of the Yes/No gate with the generator enabled. Here the code is run at
  such an input: the generator is enabled, the sender is at \<^verbatim>\<open>AWAITING_INTEREST\<close> and
  the reply \<^verbatim>\<open>Maybe later\<close> contains no positive and no negative keyword. The call
  raises \<^verbatim>\<open>NameError\<close> instead of returning a reply.
\<close>

theorem unclear_reply_raises_name_error:
  "fst (process_message
          (sample_manager llm_on [''+971500000001'' \<mapsto> user_at ''AWAITING_INTEREST'' Map.empty])
          ''+971500000001'' ''Maybe later'' None)
   = Inl (NameError ''user_state'')"
  by (simp add: engine_defs sample_defs reader_defs text_defs Let_def)

text \<open>
  C2. The claim says that with the generator enabled the first two unclear replies at the
  gate increment and persist \<^verbatim>\<open>retry_count\<close>. On the code, for every sender at the gate
  and every reply matching no keyword: with the generator enabled the call raises
  \<^verbatim>\<open>NameError\<close>, with it disabled the call returns the static fallback message with
  \<open>ended = False\<close>; in both cases the store file and the sender's record, its
  \<^verbatim>\<open>retry_count\<close> included, are unchanged.
\<close>

theorem unclear_replies_at_gate:
  assumes "current_state (fst (get_user_state dm p)) = ''AWAITING_INTEREST''"
    and "states (dialogue_data dm) ''AWAITING_INTEREST'' = Some st"
    and "\<not> any_keyword_in (get_or (positive_keywords st) []) (str_strip (str_lower msg))"
    and "\<not> any_keyword_in (get_or (negative_keywords st) []) (str_strip (str_lower msg))"
  shows "fst (process_message dm p msg user_name) =
           (if is_enabled (llm dm) then Inl (NameError ''user_state'')
            else Inr (branch_message (on_unclear st) ''Please reply with Yes or No.'', False))
         \<and> store (snd (process_message dm p msg user_name)) = store dm
         \<and> fst (get_user_state (snd (process_message dm p msg user_name)) p)
             = fst (get_user_state dm p)"
  using assms(3,4)
  by (simp add: process_message_at_gate [OF assms(1,2)] handle_interest_response_def
      states_get_def assms(2) Let_def get_user_state_again)

theorem unclear_replies_at_gate_witness:
  "fst (process_message
          (sample_manager llm_on [''+971500000002'' \<mapsto> user_at ''AWAITING_INTEREST'' Map.empty])
          ''+971500000002'' ''what is this?'' None)
     = Inl (NameError ''user_state'')
   \<and> store_get (store (snd (process_message
          (sample_manager llm_on [''+971500000002'' \<mapsto> user_at ''AWAITING_INTEREST'' Map.empty])
          ''+971500000002'' ''what is this?'' None))) ''+971500000002''
     = Some (user_at ''AWAITING_INTEREST'' Map.empty)
   \<and> retry_count (user_at ''AWAITING_INTEREST'' Map.empty) = 0"
  using unclear_replies_at_gate
    [of "sample_manager llm_on [''+971500000002'' \<mapsto> user_at ''AWAITING_INTEREST'' Map.empty]"
        "''+971500000002''" sample_interest "''what is this?''" None]
  by (simp add: get_user_state_def store_defs sample_defs reader_defs text_defs)

section \<open>Re-prompts\<close>

text \<open>
  C5 as stated fails. First input: the sender is in memory at \<^verbatim>\<open>AWAITING_ANSWER_1\<close> with
  \<open>message_count = 3\<close> and the store file holds no record; after the re-prompt the
  store still holds no record of the sender, so no counter was persisted. Second input:
  memory and store agree; after the re-prompt the stored \<open>message_count\<close> is still 3.
\<close>

theorem reprompt_persists_no_counter:
  "fst (process_message
          (unsynced_manager llm_off [''+971500000003'' \<mapsto> user_at ''AWAITING_ANSWER_1'' Map.empty])
          ''+971500000003'' ''hmm'' None)
     = Inr (''Salaried or self-employed?'', False)
   \<and> store_get (store (snd (process_message
          (unsynced_manager llm_off [''+971500000003'' \<mapsto> user_at ''AWAITING_ANSWER_1'' Map.empty])
          ''+971500000003'' ''hmm'' None))) ''+971500000003''
     = None
   \<and> fst (process_message
          (sample_manager llm_off [''+971500000003'' \<mapsto> user_at ''AWAITING_ANSWER_1'' Map.empty])
          ''+971500000003'' ''hmm'' None)
     = Inr (''Salaried or self-employed?'', False)
   \<and> map_option message_count (store_get (store (snd (process_message
          (sample_manager llm_off [''+971500000003'' \<mapsto> user_at ''AWAITING_ANSWER_1'' Map.empty])
          ''+971500000003'' ''hmm'' None))) ''+971500000003'')
     = Some 3"
  by (simp add: engine_defs store_defs sample_defs reader_defs text_defs Let_def)

text \<open>
  C5, amended. On every call that only re-prompts (\<open>only_reprompts\<close>: invalid answer at an
  answer state, or unclear reply at the gate with the generator disabled) the reply has
  \<open>ended = False\<close>, nothing is written to the store (the store file, and with it the
  stored current-state identifier, is unchanged) and the sender's record is unchanged:
  no counter is incremented.
\<close>

theorem reprompt_changes_nothing:
  assumes "only_reprompts dm p msg"
  shows "(\<exists>r. fst (process_message dm p msg user_name) = Inr (r, False))
         \<and> store (snd (process_message dm p msg user_name)) = store dm
         \<and> fst (get_user_state (snd (process_message dm p msg user_name)) p)
             = fst (get_user_state dm p)"
proof -
  from reprompt_step [OF assms, of user_name] obtain r where
    "process_message dm p msg user_name = (Inr (r, False), snd (get_user_state dm p))"
    by blast
  then show ?thesis by (simp add: get_user_state_again)
qed

theorem reprompt_changes_nothing_witness:
  "only_reprompts
     (sample_manager llm_off [''+971500000004'' \<mapsto> user_at ''AWAITING_ANSWER_2'' Map.empty])
     ''+971500000004'' ''a lot''
   \<and> store_get (store (snd (process_message
          (sample_manager llm_off [''+971500000004'' \<mapsto> user_at ''AWAITING_ANSWER_2'' Map.empty])
          ''+971500000004'' ''a lot'' None))) ''+971500000004''
     = Some (user_at ''AWAITING_ANSWER_2'' Map.empty)"
proof -
  have h: "only_reprompts
     (sample_manager llm_off [''+971500000004'' \<mapsto> user_at ''AWAITING_ANSWER_2'' Map.empty])
     ''+971500000004'' ''a lot''"
    by (simp add: only_reprompts_def get_user_state_def sample_defs reader_defs text_defs
        re_findall_digits.simps Let_def)
  show ?thesis
    using h reprompt_changes_nothing [OF h, of None]
    by (simp add: store_defs sample_manager_def)
qed

section \<open>First contact\<close>

text \<open>
  C6. For a sender with no record in memory and none in the store, the record resolved
  by the first call is \<^verbatim>\<open>INITIAL\<close> with an empty answer map, zero counters and no
  outcome; \<^verbatim>\<open>process_message\<close> returns the greeting template (empty when the flow has
  none) with every \<^verbatim>\<open>{name}\<close> replaced by the display name, or by \<^verbatim>\<open>there\<close> when
  no display name is given (\<open>None\<close>, or the empty string, which Python treats alike), with
  \<open>ended = False\<close>, and moves the sender to the greeting's next state.
\<close>

theorem first_contact_greets:
  assumes "user_states dm p = None" and "store_get (store dm) p = None"
  shows "fst (get_user_state dm p) =
           \<lparr>current_state = ''INITIAL'', conversation_data = Map.empty, message_count = 0,
            retry_count = 0, outcome = None\<rparr>
         \<and> process_message dm p msg user_name =
             (Inr (str_replace ''{name}''
                     (case user_name of
                        None \<Rightarrow> ''there''
                      | Some n \<Rightarrow> if n = [] then ''there'' else n)
                     (get_or (st_message_template (states_get dm ''INITIAL'')) []), False),
              update_user_state dm p
                (get_or (st_next_state (states_get dm ''INITIAL'')) ''AWAITING_INTEREST'') None)"
proof -
  have u: "fst (get_user_state dm p) = initial_user_state"
    using assms by (simp add: get_user_state_def)
  then have "current_state (fst (get_user_state dm p)) = ''INITIAL''"
    by (simp add: initial_user_state_def)
  then have "process_message dm p msg user_name =
               handle_initial (snd (get_user_state dm p)) p user_name"
    by (simp add: process_message_def case_prod_beta Let_def)
  then show ?thesis
    using u
    by (simp add: handle_initial_def Let_def update_user_state_resolved initial_user_state_def)
qed

theorem first_contact_greets_witness:
  "process_message (restarted_manager llm_off Map.empty) ''+971500000005'' ''hello'' (Some ''Aisha'')
     = (Inr (''Hi Aisha! Are you interested in a mortgage?'', False),
        update_user_state (restarted_manager llm_off Map.empty) ''+971500000005''
          ''AWAITING_INTEREST'' None)
   \<and> fst (process_message (restarted_manager llm_off Map.empty) ''+971500000005'' ''hello'' None)
     = Inr (''Hi there! Are you interested in a mortgage?'', False)"
  using first_contact_greets
          [of "restarted_manager llm_off Map.empty" "''+971500000005''" "''hello''" "Some ''Aisha''"]
        first_contact_greets
          [of "restarted_manager llm_off Map.empty" "''+971500000005''" "''hello''" None]
  by (simp add: store_defs sample_defs reader_defs str_replace.simps)

section \<open>The income answer\<close>

text \<open>\<^verbatim>\<open>process_message\<close> at \<^verbatim>\<open>AWAITING_ANSWER_2\<close>, in terms of the digit runs of the raw message.\<close>

lemma process_message_at_income:
  assumes "current_state (fst (get_user_state dm p)) = ''AWAITING_ANSWER_2''"
    and "states (dialogue_data dm) ''AWAITING_ANSWER_2'' = Some st"
  shows "process_message dm p msg user_name =
     (case re_findall_digits msg of
        [] \<Rightarrow> (Inr (branch_message (on_invalid st) ''Please provide a numeric value.'', False),
               snd (get_user_state dm p))
      | n # ns \<Rightarrow>
          if int_of_str n < get_or (minimum_income st) 5000 then
            (Inr (branch_message (on_below_minimum st) ''Thank you for your interest.'', True),
             update_user_state dm p ''END'' None)
          else
            (Inr (branch_message (on_valid st) ''Thank you!'', False),
             update_user_state dm p ''QUESTION_3''
               (Some [get_or (store_as st) ''monthly_income'' \<mapsto> SInt (int_of_str n)])))"
proof -
  have pre: "prefix ''AWAITING_ANSWER'' (current_state (fst (get_user_state dm p)))"
    by (simp add: assms(1))
  have st': "states (dialogue_data dm) (current_state (fst (get_user_state dm p))) = Some st"
    by (simp add: assms)
  show ?thesis
    by (simp add: process_message_at_answer [OF pre st'] handle_answer_unfold assms(1)
        findall_strip_lower states_get_def assms(2) Let_def update_user_state_resolved
        split: list.splits)
qed

text \<open>
  C9. For a sender at \<^verbatim>\<open>AWAITING_ANSWER_2\<close> with no outcome yet, when the first digit
  run of the message is below the configured minimum income, \<^verbatim>\<open>process_message\<close>
  returns the below-minimum message with \<open>ended = True\<close>, the sender's record moves to
  \<^verbatim>\<open>END\<close>, and its outcome is still \<open>None\<close>. That record is what the store holds
  afterwards when the write succeeds; when the write is refused the store holds what it
  held before, and when it is torn the store holds nothing: in no case is an outcome
  written.
\<close>

theorem below_minimum_keeps_outcome:
  assumes "current_state (fst (get_user_state dm p)) = ''AWAITING_ANSWER_2''"
    and "states (dialogue_data dm) ''AWAITING_ANSWER_2'' = Some st"
    and "re_findall_digits msg = n # ns"
    and "int_of_str n < get_or (minimum_income st) 5000"
    and "outcome (fst (get_user_state dm p)) = None"
  shows "fst (process_message dm p msg user_name) =
           Inr (branch_message (on_below_minimum st) ''Thank you for your interest.'', True)
         \<and> current_state (fst (get_user_state (snd (process_message dm p msg user_name)) p)) = ''END''
         \<and> outcome (fst (get_user_state (snd (process_message dm p msg user_name)) p)) = None
         \<and> store_get (store (snd (process_message dm p msg user_name))) p =
             (case next_outcome (next_writes (store dm)) of
                Written \<Rightarrow> Some (fst (get_user_state (snd (process_message dm p msg user_name)) p))
              | Refused \<Rightarrow> store_get (store dm) p
              | Torn \<Rightarrow> None)"
  using assms(3,4,5)
  by (simp add: process_message_at_income [OF assms(1,2)] update_user_state_record
      update_user_state_stored applied_update_def split: write_outcome.splits)

theorem below_minimum_keeps_outcome_witness:
  "fst (process_message
          (sample_manager llm_off
             [''+971500000006'' \<mapsto> user_at ''AWAITING_ANSWER_2'' [''employment_type'' \<mapsto> SStr ''salaried'']])
          ''+971500000006'' ''3000 AED'' None)
     = Inr (''Sorry, the minimum income is 5000.'', True)
   \<and> map_option outcome (store_get (store (snd (process_message
          (sample_manager llm_off
             [''+971500000006'' \<mapsto> user_at ''AWAITING_ANSWER_2'' [''employment_type'' \<mapsto> SStr ''salaried'']])
          ''+971500000006'' ''3000 AED'' None))) ''+971500000006'')
     = Some None"
proof -
  let ?dm = "sample_manager llm_off
       [''+971500000006'' \<mapsto> user_at ''AWAITING_ANSWER_2'' [''employment_type'' \<mapsto> SStr ''salaried'']]"
  have run: "re_findall_digits ''3000 AED'' = [''3000'']"
    by (simp add: re_findall_digits.simps is_digit_def)
  have h1: "current_state (fst (get_user_state ?dm ''+971500000006'')) = ''AWAITING_ANSWER_2''"
    by (simp add: get_user_state_def sample_manager_def user_at_def)
  have h2: "states (dialogue_data ?dm) ''AWAITING_ANSWER_2'' = Some sample_answer_2"
    by (simp add: sample_manager_def sample_flow_def)
  have h4: "int_of_str ''3000'' < get_or (minimum_income sample_answer_2) 5000"
    by (simp add: int_of_str_def digit_value_def sample_answer_2_def empty_state_def get_or_def)
  have h5: "outcome (fst (get_user_state ?dm ''+971500000006'')) = None"
    by (simp add: get_user_state_def sample_manager_def user_at_def)
  show ?thesis
    using below_minimum_keeps_outcome [OF h1 h2 run h4 h5, of None]
    by (simp add: sample_answer_2_def empty_state_def just_message_def branch_message_def
        get_or_def next_outcome_def sample_manager_def working_store_def)
qed

text \<open>
  C7. At \<^verbatim>\<open>AWAITING_ANSWER_2\<close> the income is the first maximal run of digits of the
  message: when the message is \<open>pre @ ds @ post\<close> with no digit in \<open>pre\<close>, \<open>ds\<close> a
  non-empty run of digits and \<open>post\<close> empty or starting with a non-digit, the income is
  \<open>int(ds)\<close>; it is compared with the minimum and, when not below it, stored as an
  integer. The run \<^verbatim>\<open>7500\<close> is the integer 7500. A message without digits yields the
  invalid-input re-prompt and changes nothing. Lower-casing and trimming do not change
  the digit runs, so the statement is about the message as received.
\<close>

theorem income_is_first_digit_run:
  assumes "current_state (fst (get_user_state dm p)) = ''AWAITING_ANSWER_2''"
    and "states (dialogue_data dm) ''AWAITING_ANSWER_2'' = Some st"
  shows "(msg = pre @ ds @ post \<and> list_all (\<lambda>c. \<not> is_digit c) pre \<and> ds \<noteq> []
            \<and> list_all is_digit ds \<and> (post = [] \<or> \<not> is_digit (hd post))
          \<longrightarrow> process_message dm p msg user_name =
               (if int_of_str ds < get_or (minimum_income st) 5000 then
                  (Inr (branch_message (on_below_minimum st) ''Thank you for your interest.'', True),
                   update_user_state dm p ''END'' None)
                else
                  (Inr (branch_message (on_valid st) ''Thank you!'', False),
                   update_user_state dm p ''QUESTION_3''
                     (Some [get_or (store_as st) ''monthly_income'' \<mapsto> SInt (int_of_str ds)]))))
         \<and> (list_all (\<lambda>c. \<not> is_digit c) msg
          \<longrightarrow> process_message dm p msg user_name =
               (Inr (branch_message (on_invalid st) ''Please provide a numeric value.'', False),
                snd (get_user_state dm p)))
         \<and> int_of_str ''7500'' = 7500"
proof (intro conjI impI)
  assume a: "msg = pre @ ds @ post \<and> list_all (\<lambda>c. \<not> is_digit c) pre \<and> ds \<noteq> []
            \<and> list_all is_digit ds \<and> (post = [] \<or> \<not> is_digit (hd post))"
  then obtain ns where "re_findall_digits msg = ds # ns"
    using findall_first_run [of pre ds post] by (auto simp: list_all_iff)
  then show "process_message dm p msg user_name =
               (if int_of_str ds < get_or (minimum_income st) 5000 then
                  (Inr (branch_message (on_below_minimum st) ''Thank you for your interest.'', True),
                   update_user_state dm p ''END'' None)
                else
                  (Inr (branch_message (on_valid st) ''Thank you!'', False),
                   update_user_state dm p ''QUESTION_3''
                     (Some [get_or (store_as st) ''monthly_income'' \<mapsto> SInt (int_of_str ds)])))"
    by (simp add: process_message_at_income [OF assms])
next
  assume "list_all (\<lambda>c. \<not> is_digit c) msg"
  then have "re_findall_digits msg = []"
    by (simp add: findall_Nil_iff list_all_iff)
  then show "process_message dm p msg user_name =
               (Inr (branch_message (on_invalid st) ''Please provide a numeric value.'', False),
                snd (get_user_state dm p))"
    by (simp add: process_message_at_income [OF assms])
next
  show "int_of_str ''7500'' = 7500"
    by (simp add: int_of_str_def digit_value_def)
qed

theorem income_is_first_digit_run_witness:
  "fst (process_message
          (sample_manager llm_off [''+971500000007'' \<mapsto> user_at ''AWAITING_ANSWER_2'' Map.empty])
          ''+971500000007'' ''about 7500 aed'' None)
     = Inr (''Thanks.'', False)
   \<and> map_option (\<lambda>u. conversation_data u ''monthly_income'')
        (store_get (store (snd (process_message
          (sample_manager llm_off [''+971500000007'' \<mapsto> user_at ''AWAITING_ANSWER_2'' Map.empty])
          ''+971500000007'' ''about 7500 aed'' None))) ''+971500000007'')
     = Some (Some (SInt 7500))
   \<and> process_message
          (sample_manager llm_off [''+971500000007'' \<mapsto> user_at ''AWAITING_ANSWER_2'' Map.empty])
          ''+971500000007'' ''plenty'' None
     = (Inr (''Please send a number.'', False),
        sample_manager llm_off [''+971500000007'' \<mapsto> user_at ''AWAITING_ANSWER_2'' Map.empty])"
proof -
  let ?dm = "sample_manager llm_off [''+971500000007'' \<mapsto> user_at ''AWAITING_ANSWER_2'' Map.empty]"
  have h1: "current_state (fst (get_user_state ?dm ''+971500000007'')) = ''AWAITING_ANSWER_2''"
    by (simp add: get_user_state_def sample_manager_def user_at_def)
  have h2: "states (dialogue_data ?dm) ''AWAITING_ANSWER_2'' = Some sample_answer_2"
    by (simp add: sample_manager_def sample_flow_def)
  have g: "get_user_state ?dm ''+971500000007'' = (user_at ''AWAITING_ANSWER_2'' Map.empty, ?dm)"
    by (simp add: get_user_state_def sample_manager_def)
  have v: "int_of_str ''7500'' = 7500"
    by (simp add: int_of_str_def digit_value_def)
  have a: "process_message ?dm ''+971500000007'' ''about 7500 aed'' None =
             (Inr (''Thanks.'', False),
              update_user_state ?dm ''+971500000007'' ''QUESTION_3''
                (Some [''monthly_income'' \<mapsto> SInt 7500]))"
    using income_is_first_digit_run
            [OF h1 h2, of "''about 7500 aed''" "''about ''" "''7500''" "'' aed''" None]
    by (simp add: v is_digit_def sample_answer_2_def empty_state_def just_message_def
        branch_message_def get_or_def)
  have b: "process_message ?dm ''+971500000007'' ''plenty'' None =
             (Inr (''Please send a number.'', False), ?dm)"
    using income_is_first_digit_run
            [OF h1 h2, of "''plenty''" "[]" "[]" "[]" None]
    by (simp add: g is_digit_def sample_answer_2_def empty_state_def just_message_def
        branch_message_def get_or_def)
  show ?thesis
    by (simp add: a b update_user_state_stored applied_update_def g)
qed

text \<open>
  C10. An income equal to the configured minimum is not below it: at
  \<^verbatim>\<open>AWAITING_ANSWER_2\<close> the sender moves on to \<^verbatim>\<open>QUESTION_3\<close> with the income
  stored and \<open>ended = False\<close>. The same value stored as \<^verbatim>\<open>monthly_income\<close> passes the
  evaluator's threshold when the evaluator's minimum is the same number: the outcome is
  then decided by the employment and residency rules alone.
\<close>

theorem income_equal_to_minimum_passes:
  assumes "current_state (fst (get_user_state dm p)) = ''AWAITING_ANSWER_2''"
    and "states (dialogue_data dm) ''AWAITING_ANSWER_2'' = Some st"
    and "re_findall_digits msg = n # ns"
    and "int_of_str n = get_or (minimum_income st) 5000"
    and "conversation_data (fst (get_user_state dm2 p2)) ''monthly_income'' = Some (SInt (int_of_str n))"
    and "get_or (r_monthly_income_minimum (eligibility_rules dm2)) 5000 = get_or (minimum_income st) 5000"
  shows "process_message dm p msg user_name =
           (Inr (branch_message (on_valid st) ''Thank you!'', False),
            update_user_state dm p ''QUESTION_3''
              (Some [get_or (store_as st) ''monthly_income'' \<mapsto> SInt (int_of_str n)]))
         \<and> outcome (fst (get_user_state (snd (handle_eligibility dm2 p2)) p2)) =
             Some (if scalar_in (get_or (conversation_data (fst (get_user_state dm2 p2)) ''employment_type'') (SStr []))
                        (get_or (r_employment_type (eligibility_rules dm2)) [])
                      \<and> scalar_in (get_or (conversation_data (fst (get_user_state dm2 p2)) ''residency_status'') (SStr []))
                        (get_or (r_residency_status (eligibility_rules dm2)) [])
                   then ''qualified'' else ''disqualified'')"
proof -
  have i: "get_or (conversation_data (fst (get_user_state dm2 p2)) ''monthly_income'') (SInt 0)
             = SInt (int_of_str n)"
    by (simp add: assms(5) get_or_def)
  have "process_message dm p msg user_name =
           (Inr (branch_message (on_valid st) ''Thank you!'', False),
            update_user_state dm p ''QUESTION_3''
              (Some [get_or (store_as st) ''monthly_income'' \<mapsto> SInt (int_of_str n)]))"
    using assms(3,4) by (simp add: process_message_at_income [OF assms(1,2)])
  moreover have "outcome (fst (get_user_state (snd (handle_eligibility dm2 p2)) p2)) =
             Some (if scalar_in (get_or (conversation_data (fst (get_user_state dm2 p2)) ''employment_type'') (SStr []))
                        (get_or (r_employment_type (eligibility_rules dm2)) [])
                      \<and> scalar_in (get_or (conversation_data (fst (get_user_state dm2 p2)) ''residency_status'') (SStr []))
                        (get_or (r_residency_status (eligibility_rules dm2)) [])
                   then ''qualified'' else ''disqualified'')"
    using assms(4,6) by (simp add: handle_eligibility_record [OF i] verdict_def)
  ultimately show ?thesis by simp
qed

theorem income_equal_to_minimum_passes_witness:
  "fst (process_message
          (sample_manager llm_off [''+971500000008'' \<mapsto> user_at ''AWAITING_ANSWER_2'' Map.empty])
          ''+971500000008'' ''5000'' None)
     = Inr (''Thanks.'', False)
   \<and> outcome (fst (get_user_state (snd (handle_eligibility
          (sample_manager llm_off
             [''+971500000009'' \<mapsto> user_at ''EVALUATE_ELIGIBILITY'' (answers ''salaried'' 5000 ''expatriate'')])
          ''+971500000009'')) ''+971500000009''))
     = Some ''qualified''"
proof -
  let ?dm = "sample_manager llm_off [''+971500000008'' \<mapsto> user_at ''AWAITING_ANSWER_2'' Map.empty]"
  let ?dm2 = "sample_manager llm_off
     [''+971500000009'' \<mapsto> user_at ''EVALUATE_ELIGIBILITY'' (answers ''salaried'' 5000 ''expatriate'')]"
  have v: "int_of_str ''5000'' = 5000"
    by (simp add: int_of_str_def digit_value_def)
  have h1: "current_state (fst (get_user_state ?dm ''+971500000008'')) = ''AWAITING_ANSWER_2''"
    by (simp add: get_user_state_def sample_manager_def user_at_def)
  have h2: "states (dialogue_data ?dm) ''AWAITING_ANSWER_2'' = Some sample_answer_2"
    by (simp add: sample_manager_def sample_flow_def)
  have h3: "re_findall_digits ''5000'' = [''5000'']"
    by (simp add: re_findall_digits.simps is_digit_def)
  have h4: "int_of_str ''5000'' = get_or (minimum_income sample_answer_2) 5000"
    by (simp add: v sample_answer_2_def empty_state_def get_or_def)
  have g2: "get_user_state ?dm2 ''+971500000009'' =
              (user_at ''EVALUATE_ELIGIBILITY'' (answers ''salaried'' 5000 ''expatriate''), ?dm2)"
    by (simp add: get_user_state_def sample_manager_def)
  have h5: "conversation_data (fst (get_user_state ?dm2 ''+971500000009'')) ''monthly_income''
              = Some (SInt (int_of_str ''5000''))"
    unfolding g2 by (simp add: v user_at_def answers_def)
  have r: "eligibility_rules ?dm2 = sample_rules"
    by (simp add: eligibility_rules_def states_get_def sample_manager_def sample_flow_def
        sample_eligibility_def empty_state_def get_or_def)
  have h6: "get_or (r_monthly_income_minimum (eligibility_rules ?dm2)) 5000
              = get_or (minimum_income sample_answer_2) 5000"
    by (simp add: r sample_rules_def sample_answer_2_def empty_state_def get_or_def)
  show ?thesis
    using income_equal_to_minimum_passes [OF h1 h2 h3 h4 h5 h6, of None]
    unfolding g2 r
    by (simp add: sample_rules_def sample_answer_2_def empty_state_def just_message_def
        branch_message_def get_or_def scalar_in_def user_at_def answers_def)
qed

section \<open>The eligibility evaluator\<close>

text \<open>
  C4 as stated fails on missing fields. The stored answers below have no
  \<^verbatim>\<open>monthly_income\<close>; with \<open>monthly_income_minimum = 0\<close> the evaluator reads the
  missing income as 0, the threshold passes and the outcome is \<^verbatim>\<open>qualified\<close>. And
  when the stored income is a string, the evaluation raises \<^verbatim>\<open>TypeError\<close> and sets
  no outcome.
\<close>

theorem missing_income_can_qualify:
  "conversation_data
     (user_at ''EVALUATE_ELIGIBILITY''
        [''employment_type'' \<mapsto> SStr ''salaried'', ''residency_status'' \<mapsto> SStr ''expatriate''])
     ''monthly_income'' = None
   \<and> fst (handle_eligibility
          (zero_minimum_manager
             [''+971500000010'' \<mapsto> user_at ''EVALUATE_ELIGIBILITY''
                [''employment_type'' \<mapsto> SStr ''salaried'', ''residency_status'' \<mapsto> SStr ''expatriate'']])
          ''+971500000010'')
     = Inr (''Book a call: https://calendly.com/demo'', True)
   \<and> map_option outcome (store_get (store (snd (handle_eligibility
          (zero_minimum_manager
             [''+971500000010'' \<mapsto> user_at ''EVALUATE_ELIGIBILITY''
                [''employment_type'' \<mapsto> SStr ''salaried'', ''residency_status'' \<mapsto> SStr ''expatriate'']])
          ''+971500000010''))) ''+971500000010'')
     = Some (Some ''qualified'')
   \<and> fst (handle_eligibility
          (sample_manager llm_off
             [''+971500000010'' \<mapsto> user_at ''EVALUATE_ELIGIBILITY''
                [''employment_type'' \<mapsto> SStr ''salaried'', ''monthly_income'' \<mapsto> SStr ''salaried'',
                 ''residency_status'' \<mapsto> SStr ''expatriate'']])
          ''+971500000010'')
     = Inl TypeError"
  by (simp add: engine_defs store_defs sample_defs reader_defs zero_minimum_manager_def
      zero_minimum_flow_def str_replace.simps Let_def)

text \<open>
  C4, amended. Eligibility evaluation depends only on the stored answers and the rules:
  two evaluations over equal answers and equal rules both raise \<^verbatim>\<open>TypeError\<close> (when
  the stored income is a string) or set the same outcome. Otherwise the outcome is
  \<^verbatim>\<open>qualified\<close> exactly when all three predicates pass, a missing field being read as
  its default (\<open>qualifies_with_defaults\<close>); so a missing field counts as failing, as the
  specification words it (\<open>spec_qualifies\<close>), unless its rule admits the default. The
  reply is the qualified template with the scheduling link substituted, or the
  not-qualified message, with \<open>ended = True\<close>; the sender moves to \<^verbatim>\<open>END\<close> and the
  record is written to the store. With the answers salaried, 8000, expatriate and the
  rules of the claim the outcome is \<^verbatim>\<open>qualified\<close> and the link is substituted; with
  3000 it is \<^verbatim>\<open>disqualified\<close> with \<open>ended = True\<close>.
\<close>

theorem eligibility_is_conjunctive:
  "fst (handle_eligibility dm p) =
     (if income_is_text (conversation_data (fst (get_user_state dm p))) then Inl TypeError
      else Inr (if qualifies_with_defaults (eligibility_rules dm)
                     (conversation_data (fst (get_user_state dm p)))
                then str_replace ''{calendly_link}''
                       (get_or (calendly_link (dialogue_data dm)) ''https://calendly.com'')
                       (branch_message_template
                          (on_qualified (states_get dm ''EVALUATE_ELIGIBILITY'')) [])
                else branch_message (on_not_qualified (states_get dm ''EVALUATE_ELIGIBILITY''))
                       ''Thank you for your time.'', True))
   \<and> fst (get_user_state (snd (handle_eligibility dm p)) p) =
       (if income_is_text (conversation_data (fst (get_user_state dm p)))
        then fst (get_user_state dm p)
        else (fst (get_user_state dm p))
               \<lparr>current_state := ''END'',
                message_count := message_count (fst (get_user_state dm p)) + 1,
                outcome := Some (if qualifies_with_defaults (eligibility_rules dm)
                                      (conversation_data (fst (get_user_state dm p)))
                                 then ''qualified'' else ''disqualified'')\<rparr>)
   \<and> store_get (store (snd (handle_eligibility dm p))) p =
       (if income_is_text (conversation_data (fst (get_user_state dm p)))
        then store_get (store dm) p
        else (case next_outcome (next_writes (store dm)) of
                Written \<Rightarrow> Some (fst (get_user_state (snd (handle_eligibility dm p)) p))
              | Refused \<Rightarrow> store_get (store dm) p
              | Torn \<Rightarrow> None))
   \<and> ((conversation_data (fst (get_user_state dm p)) ''employment_type'' \<noteq> None
          \<or> [] \<notin> set (get_or (r_employment_type (eligibility_rules dm)) []))
        \<and> (conversation_data (fst (get_user_state dm p)) ''monthly_income'' \<noteq> None
          \<or> 0 < get_or (r_monthly_income_minimum (eligibility_rules dm)) 5000)
        \<and> (conversation_data (fst (get_user_state dm p)) ''residency_status'' \<noteq> None
          \<or> [] \<notin> set (get_or (r_residency_status (eligibility_rules dm)) []))
      \<longrightarrow> qualifies_with_defaults (eligibility_rules dm)
            (conversation_data (fst (get_user_state dm p)))
          = spec_qualifies (eligibility_rules dm) (conversation_data (fst (get_user_state dm p))))
   \<and> (conversation_data (fst (get_user_state dm2 p2)) = conversation_data (fst (get_user_state dm p))
        \<and> eligibility_rules dm2 = eligibility_rules dm
      \<longrightarrow> (fst (handle_eligibility dm2 p2) = Inl TypeError
            \<longleftrightarrow> fst (handle_eligibility dm p) = Inl TypeError)
          \<and> (fst (handle_eligibility dm p) \<noteq> Inl TypeError
             \<longrightarrow> outcome (fst (get_user_state (snd (handle_eligibility dm2 p2)) p2))
                 = outcome (fst (get_user_state (snd (handle_eligibility dm p)) p))))
   \<and> (conversation_data (fst (get_user_state dm p)) = answers ''salaried'' 8000 ''expatriate''
        \<and> eligibility_rules dm = sample_rules
      \<longrightarrow> fst (handle_eligibility dm p) =
            Inr (str_replace ''{calendly_link}''
                   (get_or (calendly_link (dialogue_data dm)) ''https://calendly.com'')
                   (branch_message_template
                      (on_qualified (states_get dm ''EVALUATE_ELIGIBILITY'')) []), True)
          \<and> outcome (fst (get_user_state (snd (handle_eligibility dm p)) p)) = Some ''qualified'')
   \<and> (conversation_data (fst (get_user_state dm p)) = answers ''salaried'' 3000 ''expatriate''
        \<and> eligibility_rules dm = sample_rules
      \<longrightarrow> fst (handle_eligibility dm p) =
            Inr (branch_message (on_not_qualified (states_get dm ''EVALUATE_ELIGIBILITY''))
                   ''Thank you for your time.'', True)
          \<and> outcome (fst (get_user_state (snd (handle_eligibility dm p)) p))
              = Some ''disqualified'')"
  (is "?A \<and> ?B \<and> ?C \<and> ?D \<and> ?E \<and> ?F \<and> ?G")
proof -
  let ?data = "conversation_data (fst (get_user_state dm p))"
  have abc: "?A \<and> ?B \<and> ?C"
  proof (cases "income_is_text ?data")
    case True
    then show ?thesis
      by (simp add: eligibility_text get_user_state_again)
  next
    case False
    then show ?thesis
      using eligibility_outcome [OF False] by simp
  qed
  have d: ?D
    by (intro impI defaults_refused) simp_all
  have e: ?E
  proof (intro impI, elim conjE)
    assume eq: "conversation_data (fst (get_user_state dm2 p2)) = ?data"
      and rq: "eligibility_rules dm2 = eligibility_rules dm"
    show "(fst (handle_eligibility dm2 p2) = Inl TypeError
            \<longleftrightarrow> fst (handle_eligibility dm p) = Inl TypeError)
          \<and> (fst (handle_eligibility dm p) \<noteq> Inl TypeError
             \<longrightarrow> outcome (fst (get_user_state (snd (handle_eligibility dm2 p2)) p2))
                 = outcome (fst (get_user_state (snd (handle_eligibility dm p)) p)))"
    proof (cases "income_is_text ?data")
      case True
      then have "income_is_text (conversation_data (fst (get_user_state dm2 p2)))"
        by (simp add: eq)
      then show ?thesis
        using True by (simp add: eligibility_text)
    next
      case False
      then have f2: "\<not> income_is_text (conversation_data (fst (get_user_state dm2 p2)))"
        by (simp add: eq)
      show ?thesis
        by (simp add: eligibility_outcome(1,2) [OF False] eligibility_outcome(1,2) [OF f2] eq rq)
    qed
  qed
  have q: "\<not> income_is_text (answers ''salaried'' i ''expatriate'')" for i
    by (simp add: income_is_text_def answers_def)
  have q8: "qualifies_with_defaults sample_rules (answers ''salaried'' 8000 ''expatriate'')"
    by (simp add: qualifies_with_defaults_def sample_rules_def answers_def get_or_def)
  have q3: "\<not> qualifies_with_defaults sample_rules (answers ''salaried'' 3000 ''expatriate'')"
    by (simp add: qualifies_with_defaults_def sample_rules_def answers_def get_or_def)
  have f: ?F
  proof (intro impI, elim conjE)
    assume eq: "?data = answers ''salaried'' 8000 ''expatriate''"
      and rq: "eligibility_rules dm = sample_rules"
    have nt: "\<not> income_is_text ?data" by (simp add: eq q)
    show "fst (handle_eligibility dm p) =
            Inr (str_replace ''{calendly_link}''
                   (get_or (calendly_link (dialogue_data dm)) ''https://calendly.com'')
                   (branch_message_template
                      (on_qualified (states_get dm ''EVALUATE_ELIGIBILITY'')) []), True)
          \<and> outcome (fst (get_user_state (snd (handle_eligibility dm p)) p)) = Some ''qualified''"
      by (simp add: eligibility_outcome(1,2) [OF nt] eq rq q8)
  qed
  have g: ?G
  proof (intro impI, elim conjE)
    assume eq: "?data = answers ''salaried'' 3000 ''expatriate''"
      and rq: "eligibility_rules dm = sample_rules"
    have nt: "\<not> income_is_text ?data" by (simp add: eq q)
    show "fst (handle_eligibility dm p) =
            Inr (branch_message (on_not_qualified (states_get dm ''EVALUATE_ELIGIBILITY''))
                   ''Thank you for your time.'', True)
          \<and> outcome (fst (get_user_state (snd (handle_eligibility dm p)) p))
              = Some ''disqualified''"
      by (simp add: eligibility_outcome(1,2) [OF nt] eq rq q3)
  qed
  show ?thesis
    using abc d e f g by blast
qed

theorem eligibility_is_conjunctive_witness:
  "fst (handle_eligibility
          (sample_manager llm_off
             [''+971500000011'' \<mapsto> user_at ''EVALUATE_ELIGIBILITY'' (answers ''salaried'' 8000 ''expatriate'')])
          ''+971500000011'')
     = Inr (''Book a call: https://calendly.com/demo'', True)
   \<and> outcome (fst (get_user_state (snd (handle_eligibility
          (sample_manager llm_off
             [''+971500000011'' \<mapsto> user_at ''EVALUATE_ELIGIBILITY'' (answers ''salaried'' 8000 ''expatriate'')])
          ''+971500000011'')) ''+971500000011''))
     = Some ''qualified''
   \<and> fst (handle_eligibility
          (sample_manager llm_off
             [''+971500000011'' \<mapsto> user_at ''EVALUATE_ELIGIBILITY'' (answers ''salaried'' 3000 ''expatriate'')])
          ''+971500000011'')
     = Inr (''Sorry, you do not qualify.'', True)
   \<and> outcome (fst (get_user_state (snd (handle_eligibility
          (sample_manager llm_off
             [''+971500000011'' \<mapsto> user_at ''EVALUATE_ELIGIBILITY'' (answers ''salaried'' 3000 ''expatriate'')])
          ''+971500000011'')) ''+971500000011''))
     = Some ''disqualified''"
proof -
  let ?p = "''+971500000011''"
  let ?dm = "\<lambda>i. sample_manager llm_off
     [?p \<mapsto> user_at ''EVALUATE_ELIGIBILITY'' (answers ''salaried'' i ''expatriate'')]"
  have g: "get_user_state (?dm i) ?p =
             (user_at ''EVALUATE_ELIGIBILITY'' (answers ''salaried'' i ''expatriate''), ?dm i)" for i
    by (simp add: get_user_state_def sample_manager_def)
  have d: "conversation_data (fst (get_user_state (?dm i) ?p)) = answers ''salaried'' i ''expatriate''" for i
    unfolding g by (simp add: user_at_def)
  have r: "eligibility_rules (?dm i) = sample_rules" for i
    by (simp add: eligibility_rules_def states_get_def sample_manager_def sample_flow_def
        sample_eligibility_def empty_state_def get_or_def)
  have st: "states_get (?dm i) ''EVALUATE_ELIGIBILITY'' = sample_eligibility" for i
    by (simp add: states_get_def sample_manager_def sample_flow_def)
  have l: "get_or (calendly_link (dialogue_data (?dm i))) ''https://calendly.com''
             = ''https://calendly.com/demo''" for i
    by (simp add: sample_manager_def sample_flow_def get_or_def)
  have t: "str_replace ''{calendly_link}'' ''https://calendly.com/demo'' ''Book a call: {calendly_link}''
             = ''Book a call: https://calendly.com/demo''"
    by (simp add: str_replace.simps)
  have m: "branch_message_template (on_qualified sample_eligibility) [] = ''Book a call: {calendly_link}''"
          "branch_message (on_not_qualified sample_eligibility) ''Thank you for your time.''
             = ''Sorry, you do not qualify.''"
    by (simp_all add: sample_eligibility_def empty_state_def just_message_def branch_message_def
        branch_message_template_def get_or_def)
  have a8: "fst (handle_eligibility (?dm 8000) ?p) =
            Inr (str_replace ''{calendly_link}''
                   (get_or (calendly_link (dialogue_data (?dm 8000))) ''https://calendly.com'')
                   (branch_message_template
                      (on_qualified (states_get (?dm 8000) ''EVALUATE_ELIGIBILITY'')) []), True)
          \<and> outcome (fst (get_user_state (snd (handle_eligibility (?dm 8000) ?p)) ?p))
              = Some ''qualified''"
    using eligibility_is_conjunctive [of "?dm 8000" ?p "?dm 8000" ?p] d [of 8000] r [of 8000]
    by blast
  have a3: "fst (handle_eligibility (?dm 3000) ?p) =
            Inr (branch_message (on_not_qualified (states_get (?dm 3000) ''EVALUATE_ELIGIBILITY''))
                   ''Thank you for your time.'', True)
          \<and> outcome (fst (get_user_state (snd (handle_eligibility (?dm 3000) ?p)) ?p))
              = Some ''disqualified''"
    using eligibility_is_conjunctive [of "?dm 3000" ?p "?dm 3000" ?p] d [of 3000] r [of 3000]
    by blast
  show ?thesis
    using a8 a3 unfolding st l by (simp add: t m)
qed

end
